theory Spec2Isabelle
  imports Complex_Main "HOL-Library.AList"
begin

section \<open>Python values\<close>

text \<open>
  The scraper and the parser work on the values that \<^verbatim>\<open>json.loads\<close> and
  \<^verbatim>\<open>response.json()\<close> produce: \<^verbatim>\<open>None\<close>, booleans, integers, floats, strings,
  lists and dicts. A dict is an association list read with \<open>map_of\<close> (the first
  binding of a key is the one the dict holds); the order of the list is the dict's
  insertion order. A float is modelled by its exact rational value: rounding, infinities
  and NaN are not modelled. A string is the list of the bytes of its UTF-8 encoding; a
  surrogate code point (U+D800 to U+DFFF), which a Python string may hold on its own
  (\<^verbatim>\<open>json.loads\<close> accepts the escape \<^verbatim>\<open>\ud800\<close>), is written as the three bytes the
  UTF-8 scheme gives it: \<open>0xED\<close>, then a byte from \<open>0xA0\<close> to \<open>0xBF\<close>, then a
  continuation byte.
\<close>

datatype json =
    JNull
  | JBool bool
  | JInt int
  | JFloat rat
  | JStr string
  | JList "json list"
  | JDict "(string \<times> json) list"

text \<open>The exceptions the modelled code can raise.\<close>

datatype error =
  AttributeError | TypeError | ValueError | KeyError | ZeroDivisionError | UnicodeEncodeError

text \<open>Python's truth value of an object (\<^verbatim>\<open>bool(x)\<close>, as \<^verbatim>\<open>not\<close>, \<^verbatim>\<open>or\<close> and \<^verbatim>\<open>if\<close> use it).\<close>

fun truthy :: "json \<Rightarrow> bool" where
  "truthy JNull = False"
| "truthy (JBool b) = b"
| "truthy (JInt i) = (i \<noteq> 0)"
| "truthy (JFloat x) = (x \<noteq> 0)"
| "truthy (JStr s) = (s \<noteq> [])"
| "truthy (JList xs) = (xs \<noteq> [])"
| "truthy (JDict kvs) = (kvs \<noteq> [])"

fun is_dict :: "json \<Rightarrow> bool" where
  "is_dict (JDict kvs) = True"
| "is_dict _ = False"

fun is_list :: "json \<Rightarrow> bool" where
  "is_list (JList xs) = True"
| "is_list _ = False"

text \<open>Sequencing of steps that may raise: the first exception ends the computation.\<close>

definition ebind :: "error + 'a \<Rightarrow> ('a \<Rightarrow> error + 'b) \<Rightarrow> error + 'b" where
  "ebind m f = (case m of Inl e \<Rightarrow> Inl e | Inr x \<Rightarrow> f x)"

text \<open>
  \<^verbatim>\<open>obj.get(key, default)\<close>: only a dict has the method; on every other value the
  attribute lookup raises \<^verbatim>\<open>AttributeError\<close>.
\<close>

fun py_get :: "json \<Rightarrow> string \<Rightarrow> json \<Rightarrow> error + json" where
  "py_get (JDict kvs) key dflt = Inr (case map_of kvs key of None \<Rightarrow> dflt | Some v \<Rightarrow> v)"
| "py_get _ key dflt = Inl AttributeError"

text \<open>\<^verbatim>\<open>key in obj\<close> for a dict.\<close>

fun has_key :: "json \<Rightarrow> string \<Rightarrow> bool" where
  "has_key (JDict kvs) key = (map_of kvs key \<noteq> None)"
| "has_key _ key = False"

text \<open>\<^verbatim>\<open>obj[key]\<close> with a string key.\<close>

fun py_getitem :: "json \<Rightarrow> string \<Rightarrow> error + json" where
  "py_getitem (JDict kvs) key = (case map_of kvs key of None \<Rightarrow> Inl KeyError | Some v \<Rightarrow> Inr v)"
| "py_getitem _ key = Inl TypeError"

text \<open>
  \<^verbatim>\<open>print\<close> of a message that formats a value taken from the input. Standard output
  encodes as UTF-8 and can write the fixed text of the messages and the text of every
  exception met here. \<^verbatim>\<open>str\<close> of a value that is not a string is ASCII or shows the
  strings inside it through \<^verbatim>\<open>repr\<close>, which escapes a surrogate; a string is written
  as it is, and one that holds a surrogate cannot be encoded: \<^verbatim>\<open>print\<close> raises
  \<^verbatim>\<open>UnicodeEncodeError\<close>.
\<close>

fun has_surrogate :: "string \<Rightarrow> bool" where
  "has_surrogate (a # b # rest) =
     ((of_char a = (237 :: nat) \<and> (160 :: nat) \<le> of_char b \<and> of_char b \<le> (191 :: nat))
      \<or> has_surrogate (b # rest))"
| "has_surrogate _ = False"

fun print_raises :: "json \<Rightarrow> bool" where
  "print_raises (JStr s) = has_surrogate s"
| "print_raises _ = False"

text \<open>
  \<^verbatim>\<open>s[:n]\<close> of a string: its first \<open>n\<close> code points, each a byte followed by its
  continuation bytes (\<open>0x80\<close> to \<open>0xBF\<close>).
\<close>

fun continuation :: "char \<Rightarrow> bool" where
  "continuation c = ((128 :: nat) \<le> of_char c \<and> of_char c < (192 :: nat))"

fun first_points :: "nat \<Rightarrow> string \<Rightarrow> string" where
  "first_points n [] = []"
| "first_points n (c # cs) =
     (if n = 0 then []
      else c # takeWhile continuation cs
           @ first_points (n - 1) (dropWhile continuation cs))"

section \<open>parser.py: locating the search results\<close>

text \<open>
  The inner loop of \<^verbatim>\<open>_try_alternative_paths\<close>:
  \<^verbatim>\<open>for key in path: data = data.get(key, {})\<close>.
\<close>

fun follow_path :: "json \<Rightarrow> string list \<Rightarrow> error + json" where
  "follow_path data [] = Inr data"
| "follow_path data (key # path) =
     (case py_get data key (JDict []) of
        Inl e \<Rightarrow> Inl e
      | Inr d \<Rightarrow> follow_path d path)"

definition alternative_paths :: "string list list" where
  "alternative_paths =
     [[''props'', ''pageProps'', ''searchPageState'', ''searchResults''],
      [''props'', ''pageProps'', ''componentProps'', ''searchResults''],
      [''props'', ''initialReduxState'', ''searchPageState'', ''cat1'', ''searchResults'']]"

text \<open>
  The outer loop of \<^verbatim>\<open>_try_alternative_paths\<close>: a path whose traversal raises is
  skipped by the bare \<^verbatim>\<open>except: continue\<close>; the first path that ends in a non-empty dict
  holding \<^verbatim>\<open>listResults\<close> is returned; \<^verbatim>\<open>None\<close> after the last path.
\<close>

fun try_paths :: "json \<Rightarrow> string list list \<Rightarrow> json option" where
  "try_paths json_data [] = None"
| "try_paths json_data (path # paths) =
     (case follow_path json_data path of
        Inl e \<Rightarrow> try_paths json_data paths
      | Inr data \<Rightarrow>
          if truthy data \<and> is_dict data \<and> has_key data ''listResults''
          then Some data
          else try_paths json_data paths)"

definition try_alternative_paths :: "json \<Rightarrow> json option" where
  "try_alternative_paths json_data = try_paths json_data alternative_paths"

text \<open>
  \<^verbatim>\<open>extract_search_results\<close>: the chain of \<^verbatim>\<open>.get(key, {})\<close> calls runs inside
  \<^verbatim>\<open>try\<close>; any exception is answered by \<^verbatim>\<open>return None\<close>. The result \<open>None\<close> is
  Python's \<^verbatim>\<open>None\<close>.
\<close>

definition extract_search_results :: "json \<Rightarrow> json option" where
  "extract_search_results json_data =
     (case
        ebind (py_get json_data ''props'' (JDict [])) (\<lambda>props.
        ebind (py_get props ''pageProps'' (JDict [])) (\<lambda>page_props.
        ebind (py_get page_props ''searchPageState'' (JDict [])) (\<lambda>search_page_state.
        ebind (py_get search_page_state ''cat1'' (JDict [])) (\<lambda>cat1.
        py_get cat1 ''searchResults'' (JDict [])))))
      of
        Inl e \<Rightarrow> None
      | Inr search_results \<Rightarrow>
          if \<not> truthy search_results
          then try_alternative_paths json_data
          else Some search_results)"

text \<open>
  The vocabulary of the specification: the fixed path, the value stored at a path (every
  step is a key of a dict), and the first path of a list whose value is a non-empty dict
  with the key \<^verbatim>\<open>listResults\<close>.
\<close>

definition primary_path :: "string list" where
  "primary_path = [''props'', ''pageProps'', ''searchPageState'', ''cat1'', ''searchResults'']"

fun value_at :: "json \<Rightarrow> string list \<Rightarrow> json option" where
  "value_at v [] = Some v"
| "value_at (JDict kvs) (key # path) =
     (case map_of kvs key of None \<Rightarrow> None | Some v \<Rightarrow> value_at v path)"
| "value_at _ (key # path) = None"

fun listing_dict :: "json option \<Rightarrow> bool" where
  "listing_dict None = False"
| "listing_dict (Some d) = (truthy d \<and> is_dict d \<and> has_key d ''listResults'')"

definition first_listing_path :: "json \<Rightarrow> string list list \<Rightarrow> json option" where
  "first_listing_path json_data paths =
     (case List.find (\<lambda>path. listing_dict (value_at json_data path)) paths of
        None \<Rightarrow> None
      | Some path \<Rightarrow> value_at json_data path)"

text \<open>
  Every value met while walking down a path, the last one apart, is a dict (a missing
  key ends the walk).
\<close>

fun dicts_along :: "json \<Rightarrow> string list \<Rightarrow> bool" where
  "dicts_along v [] = True"
| "dicts_along (JDict kvs) (key # path) =
     (case map_of kvs key of None \<Rightarrow> True | Some v \<Rightarrow> dicts_along v path)"
| "dicts_along _ (key # path) = False"

text \<open>
  A page state whose \<^verbatim>\<open>cat1\<close> entry is \<^verbatim>\<open>null\<close> while the first alternative path
  holds a listing dict.
\<close>

definition null_cat1_page :: json where
  "null_cat1_page =
     JDict [(''props'', JDict [(''pageProps'', JDict [(''searchPageState'',
       JDict [(''cat1'', JNull),
              (''searchResults'', JDict [(''listResults'', JList [])])])])])]"

text \<open>A page state with an empty primary result and a listing dict on the second alternative path.\<close>

definition component_props_page :: json where
  "component_props_page =
     JDict [(''props'', JDict [(''pageProps'',
       JDict [(''searchPageState'', JDict [(''cat1'', JDict [(''searchResults'', JDict [])])]),
              (''componentProps'',
                 JDict [(''searchResults'', JDict [(''listResults'', JList [JInt 7])])])])])]"

section \<open>parser.py: one listing\<close>

text \<open>The entry of a dict under a key, or the default when the key is missing.\<close>

definition dget :: "(string \<times> json) list \<Rightarrow> string \<Rightarrow> json \<Rightarrow> json" where
  "dget kvs key dflt = (case map_of kvs key of None \<Rightarrow> dflt | Some v \<Rightarrow> v)"

fun dict_items :: "json \<Rightarrow> (string \<times> json) list" where
  "dict_items (JDict kvs) = kvs"
| "dict_items _ = []"

fun is_str :: "json \<Rightarrow> bool" where
  "is_str (JStr s) = True"
| "is_str _ = False"

text \<open>
  \<^verbatim>\<open>if detail_url and not detail_url.startswith('http'): detail_url = f"https://www.zillow.com{detail_url}"\<close>.
  A truthy value that is not a string has no \<^verbatim>\<open>startswith\<close>.
\<close>

definition absolute_detail_url :: "json \<Rightarrow> error + json" where
  "absolute_detail_url detail_url =
     (if truthy detail_url
      then (case detail_url of
              JStr s \<Rightarrow> Inr (if take 4 s = ''http'' then detail_url
                             else JStr (''https://www.zillow.com'' @ s))
            | _ \<Rightarrow> Inl AttributeError)
      else Inr detail_url)"

text \<open>
  The body of the \<^verbatim>\<open>try\<close> block of \<^verbatim>\<open>parse_property\<close>. The record it builds is the
  dict literal \<^verbatim>\<open>property_info\<close>, in the order of the source. \<open>str_of\<close> is Python's
  formatting of a value inside an f-string (\<^verbatim>\<open>str(x)\<close>), which never raises on these
  values; it is a parameter.
\<close>

definition parse_property_try ::
  "(json \<Rightarrow> string) \<Rightarrow> json \<Rightarrow> error + (string \<times> json) list option" where
  "parse_property_try str_of prop_data =
     ebind (py_get prop_data ''zpid'' JNull) (\<lambda>zpid.
     if \<not> truthy zpid then Inr None else
     ebind (py_get prop_data ''price'' JNull) (\<lambda>price.
     ebind (py_get prop_data ''unformattedPrice'' (JInt 0)) (\<lambda>price_str.
     ebind (py_get prop_data ''addressStreet'' (JStr [])) (\<lambda>address.
     ebind (py_get prop_data ''addressCity'' (JStr [])) (\<lambda>city.
     ebind (py_get prop_data ''addressState'' (JStr [])) (\<lambda>state.
     ebind (py_get prop_data ''addressZipcode'' (JStr [])) (\<lambda>zipcode.
     ebind (py_get prop_data ''beds'' JNull) (\<lambda>bedrooms.
     ebind (py_get prop_data ''baths'' JNull) (\<lambda>bathrooms.
     ebind (py_get prop_data ''area'' JNull) (\<lambda>area.
     ebind (ebind (ebind (py_get prop_data ''hdpData'' (JDict []))
                    (\<lambda>hdp. py_get hdp ''homeInfo'' (JDict [])))
              (\<lambda>home. py_get home ''homeType'' (JStr []))) (\<lambda>property_type.
     ebind (py_get prop_data ''statusType'' (JStr [])) (\<lambda>listing_type.
     ebind (py_get prop_data ''statusText'' (JStr [])) (\<lambda>listing_status.
     ebind (py_get prop_data ''detailUrl'' (JStr [])) (\<lambda>detail_url_raw.
     ebind (absolute_detail_url detail_url_raw) (\<lambda>detail_url.
     ebind (py_get prop_data ''imgSrc'' (JStr [])) (\<lambda>img_src.
     ebind (py_get prop_data ''lotAreaValue'' JNull) (\<lambda>lot_area.
     ebind (py_get prop_data ''lotAreaUnit'' (JStr [])) (\<lambda>lot_area_unit.
     ebind (ebind (ebind (py_get prop_data ''hdpData'' (JDict []))
                    (\<lambda>hdp. py_get hdp ''homeInfo'' (JDict [])))
              (\<lambda>home. py_get home ''yearBuilt'' JNull)) (\<lambda>year_built.
     ebind (ebind (py_get prop_data ''variableData'' (JDict []))
              (\<lambda>var. py_get var ''text'' (JStr []))) (\<lambda>days_on_zillow.
     ebind (py_get prop_data ''hasImage'' (JBool False)) (\<lambda>has_image.
     ebind (py_get prop_data ''isFeatured'' (JBool False)) (\<lambda>is_featured.
     ebind (py_get prop_data ''latLong'' (JDict [])) (\<lambda>lat_long.
     ebind (py_get lat_long ''latitude'' JNull) (\<lambda>latitude.
     ebind (py_get lat_long ''longitude'' JNull) (\<lambda>longitude.
     ebind (py_get prop_data ''brokerName'' (JStr [])) (\<lambda>broker_name.
     Inr (Some
       [(''zpid'', zpid),
        (''address'', address),
        (''city'', city),
        (''state'', state),
        (''zipcode'', zipcode),
        (''full_address'',
           JStr (str_of address @ '', '' @ str_of city @ '', '' @ str_of state
                 @ '' '' @ str_of zipcode)),
        (''price'', price),
        (''price_numeric'', price_str),
        (''bedrooms'', bedrooms),
        (''bathrooms'', bathrooms),
        (''area_sqft'', area),
        (''property_type'', property_type),
        (''listing_type'', listing_type),
        (''listing_status'', listing_status),
        (''detail_url'', detail_url),
        (''image_url'', img_src),
        (''lot_area'', lot_area),
        (''lot_area_unit'', lot_area_unit),
        (''year_built'', year_built),
        (''days_on_zillow'', days_on_zillow),
        (''latitude'', latitude),
        (''longitude'', longitude),
        (''broker_name'', broker_name),
        (''has_image'', has_image),
        (''is_featured'', is_featured)])
     ))))))))))))))))))))))))))"

text \<open>
  \<^verbatim>\<open>parse_property\<close>: an exception of the \<^verbatim>\<open>try\<close> block is caught by
  \<^verbatim>\<open>except Exception\<close>, whose handler prints a message that formats
  \<^verbatim>\<open>prop_data.get('zpid', 'unknown')\<close> before \<^verbatim>\<open>return None\<close>. An exception raised
  there, by the \<^verbatim>\<open>get\<close> or by the \<^verbatim>\<open>print\<close>, leaves the function.
\<close>

definition parse_property ::
  "(json \<Rightarrow> string) \<Rightarrow> json \<Rightarrow> error + (string \<times> json) list option" where
  "parse_property str_of prop_data =
     (case parse_property_try str_of prop_data of
        Inr r \<Rightarrow> Inr r
      | Inl e \<Rightarrow>
          ebind (py_get prop_data ''zpid'' (JStr ''unknown'')) (\<lambda>shown.
          if print_raises shown then Inl UnicodeEncodeError else Inr None))"

text \<open>The keys of the \<^verbatim>\<open>property_info\<close> literal.\<close>

definition known_keys :: "string list" where
  "known_keys =
     [''zpid'', ''address'', ''city'', ''state'', ''zipcode'', ''full_address'', ''price'',
      ''price_numeric'', ''bedrooms'', ''bathrooms'', ''area_sqft'', ''property_type'',
      ''listing_type'', ''listing_status'', ''detail_url'', ''image_url'', ''lot_area'',
      ''lot_area_unit'', ''year_built'', ''days_on_zillow'', ''latitude'', ''longitude'',
      ''broker_name'', ''has_image'', ''is_featured'']"

text \<open>
  The nested objects \<^verbatim>\<open>parse_property\<close> reads with chained \<^verbatim>\<open>.get\<close> calls are dicts
  (or missing), and \<^verbatim>\<open>detailUrl\<close> is a string or falsy (or missing).
\<close>

definition nested_fields_ok :: "(string \<times> json) list \<Rightarrow> bool" where
  "nested_fields_ok kvs =
     (is_dict (dget kvs ''hdpData'' (JDict []))
      \<and> is_dict (dget (dict_items (dget kvs ''hdpData'' (JDict []))) ''homeInfo'' (JDict []))
      \<and> is_dict (dget kvs ''variableData'' (JDict []))
      \<and> is_dict (dget kvs ''latLong'' (JDict []))
      \<and> (is_str (dget kvs ''detailUrl'' (JStr [])) \<or> (truthy (dget kvs ''detailUrl'' (JStr [])) = False)))"

text \<open>
  A formatting function for the examples below; on strings it is Python's \<^verbatim>\<open>str\<close>.
\<close>

fun str_of_example :: "json \<Rightarrow> string" where
  "str_of_example (JStr s) = s"
| "str_of_example JNull = ''None''"
| "str_of_example (JBool b) = (if b then ''True'' else ''False'')"
| "str_of_example _ = ''...''"

definition listing_example :: "(string \<times> json) list" where
  "listing_example =
     [(''zpid'', JStr ''13382460''),
      (''addressStreet'', JStr ''12 Elm St''),
      (''addressCity'', JStr ''Denver''),
      (''addressState'', JStr ''CO''),
      (''addressZipcode'', JStr ''80203''),
      (''price'', JStr ''$3,200/mo''),
      (''beds'', JInt 5),
      (''baths'', JFloat (5 / 2)),
      (''detailUrl'', JStr ''/homedetails/13382460_zpid/''),
      (''latLong'', JDict [(''latitude'', JFloat (3973 / 100)), (''longitude'', JInt (- 105))])]"

text \<open>A listing with \<^verbatim>\<open>"latLong": null\<close>.\<close>

definition null_latlong_listing :: "(string \<times> json) list" where
  "null_latlong_listing = [(''zpid'', JInt 1), (''addressStreet'', JStr ''1 A St''), (''latLong'', JNull)]"

text \<open>The listing \<^verbatim>\<open>{"zpid": "\ud800", "latLong": null}\<close>: its zpid is one surrogate.\<close>

definition surrogate_zpid_listing :: "(string \<times> json) list" where
  "surrogate_zpid_listing =
     [(''zpid'', JStr [CHR 0xED, CHR 0xA0, CHR 0x80]), (''latLong'', JNull)]"

section \<open>parser.py: all listings of a page\<close>

text \<open>
  The choice of the listing array in \<^verbatim>\<open>parse_all_properties\<close>:
  \<^verbatim>\<open>list_results = search_results.get('listResults', [])\<close>, and when that is falsy
  \<^verbatim>\<open>list_results = search_results.get('results', [])\<close> followed by
  \<^verbatim>\<open>list_results = list_results or search_results.get('mapResults', [])\<close>.
\<close>

definition choose_list_results :: "json \<Rightarrow> error + json" where
  "choose_list_results search_results =
     ebind (py_get search_results ''listResults'' (JList [])) (\<lambda>list_results.
     if \<not> truthy list_results
     then ebind (py_get search_results ''results'' (JList [])) (\<lambda>results.
          if truthy results then Inr results
          else py_get search_results ''mapResults'' (JList []))
     else Inr list_results)"

text \<open>\<^verbatim>\<open>len(x)\<close>: lists, strings and dicts have a length.\<close>

fun py_len :: "json \<Rightarrow> error + nat" where
  "py_len (JList xs) = Inr (length xs)"
| "py_len (JStr s) = Inr (length s)"
| "py_len (JDict kvs) = Inr (length (remdups (map fst kvs)))"
| "py_len _ = Inl TypeError"

text \<open>
  The values a \<^verbatim>\<open>for\<close> loop draws from an object: the elements of a list, the
  one-character strings of a string, the keys of a dict.
\<close>

fun py_iter :: "json \<Rightarrow> error + json list" where
  "py_iter (JList xs) = Inr xs"
| "py_iter (JStr s) = Inr (map (\<lambda>c. JStr [c]) s)"
| "py_iter (JDict kvs) = Inr (map JStr (remdups (map fst kvs)))"
| "py_iter _ = Inl TypeError"

text \<open>
  The loop \<^verbatim>\<open>for i, prop_data in enumerate(list_results, 1)\<close>: a record that is truthy
  (a non-empty dict) is appended, and a message that formats \<^verbatim>\<open>prop_info['address']\<close>
  is printed; an exception leaving \<^verbatim>\<open>parse_property\<close> or raised by that \<^verbatim>\<open>print\<close>
  leaves the loop and the method.
\<close>

fun parse_each ::
  "(json \<Rightarrow> string) \<Rightarrow> json list \<Rightarrow> (string \<times> json) list list
     \<Rightarrow> error + (string \<times> json) list list" where
  "parse_each str_of [] properties = Inr properties"
| "parse_each str_of (prop_data # rest) properties =
     (case parse_property str_of prop_data of
        Inl e \<Rightarrow> Inl e
      | Inr None \<Rightarrow> parse_each str_of rest properties
      | Inr (Some prop_info) \<Rightarrow>
          if prop_info \<noteq> []
          then (case py_getitem (JDict prop_info) ''address'' of
                  Inl e \<Rightarrow> Inl e
                | Inr address \<Rightarrow>
                    if print_raises address then Inl UnicodeEncodeError
                    else parse_each str_of rest (properties @ [prop_info]))
          else parse_each str_of rest properties)"

text \<open>
  \<^verbatim>\<open>parse_all_properties\<close>. Its argument is what \<^verbatim>\<open>self.extract_json_data()\<close> returned:
  the decoded \<^verbatim>\<open>__NEXT_DATA__\<close> script of the page, or \<^verbatim>\<open>None\<close> (that method catches
  every exception). Nothing in the method catches an exception of the later steps.
\<close>

definition parse_all_properties ::
  "(json \<Rightarrow> string) \<Rightarrow> json option \<Rightarrow> error + (string \<times> json) list list" where
  "parse_all_properties str_of extracted =
     (case extracted of
        None \<Rightarrow> Inr []
      | Some json_data \<Rightarrow>
          if \<not> truthy json_data then Inr []
          else (case extract_search_results json_data of
                  None \<Rightarrow> Inr []
                | Some search_results \<Rightarrow>
                    if \<not> truthy search_results then Inr []
                    else ebind (choose_list_results search_results) (\<lambda>list_results.
                         ebind (py_len list_results) (\<lambda>n.
                         ebind (py_iter list_results) (\<lambda>items.
                         parse_each str_of items [])))))"

text \<open>
  The vocabulary of the specification: the first non-empty value of a list of
  candidates, a default when there is none; the entries a dict holds under a list of keys.
\<close>

definition first_truthy :: "json list \<Rightarrow> json \<Rightarrow> json" where
  "first_truthy candidates dflt = (case filter truthy candidates of [] \<Rightarrow> dflt | v # rest \<Rightarrow> v)"

definition entries_under :: "(string \<times> json) list \<Rightarrow> string list \<Rightarrow> json list" where
  "entries_under kvs keys = List.map_filter (map_of kvs) keys"

definition list_keys :: "string list" where
  "list_keys = [''listResults'', ''results'', ''mapResults'']"

text \<open>Search results whose only listing entry is \<^verbatim>\<open>"mapResults": null\<close>.\<close>

definition null_map_results :: "(string \<times> json) list" where
  "null_map_results = [(''listResults'', JList []), (''mapResults'', JNull)]"

definition map_results_only :: "(string \<times> json) list" where
  "map_results_only =
     [(''listResults'', JList []), (''mapResults'', JList [JDict listing_example])]"

definition page_of_search_results :: "json \<Rightarrow> json" where
  "page_of_search_results sr =
     JDict [(''props'', JDict [(''pageProps'', JDict [(''searchPageState'',
       JDict [(''cat1'', JDict [(''searchResults'', sr)])])])])]"

section \<open>parser.py: pagination\<close>

text \<open>
  Arithmetic of a value with an integer literal: \<^verbatim>\<open>x + n\<close>, \<^verbatim>\<open>x - n\<close> and
  \<^verbatim>\<open>x // n\<close>. A bool counts as 0 or 1; a float gives a float; every other value
  raises \<^verbatim>\<open>TypeError\<close>. Integer \<^verbatim>\<open>//\<close> rounds towards minus infinity, as \<open>div\<close> does.
\<close>

fun py_add_int :: "json \<Rightarrow> int \<Rightarrow> error + json" where
  "py_add_int (JInt i) n = Inr (JInt (i + n))"
| "py_add_int (JBool b) n = Inr (JInt ((if b then 1 else 0) + n))"
| "py_add_int (JFloat x) n = Inr (JFloat (x + of_int n))"
| "py_add_int _ n = Inl TypeError"

fun py_sub_int :: "json \<Rightarrow> int \<Rightarrow> error + json" where
  "py_sub_int (JInt i) n = Inr (JInt (i - n))"
| "py_sub_int (JBool b) n = Inr (JInt ((if b then 1 else 0) - n))"
| "py_sub_int (JFloat x) n = Inr (JFloat (x - of_int n))"
| "py_sub_int _ n = Inl TypeError"

fun py_floordiv_int :: "json \<Rightarrow> int \<Rightarrow> error + json" where
  "py_floordiv_int (JInt i) n = (if n = 0 then Inl ZeroDivisionError else Inr (JInt (i div n)))"
| "py_floordiv_int (JBool b) n =
     (if n = 0 then Inl ZeroDivisionError else Inr (JInt ((if b then 1 else 0) div n)))"
| "py_floordiv_int (JFloat x) n =
     (if n = 0 then Inl ZeroDivisionError else Inr (JFloat (of_int \<lfloor>x / of_int n\<rfloor>)))"
| "py_floordiv_int _ n = Inl TypeError"

text \<open>
  \<^verbatim>\<open>total_results = (search_results.get('totalResultCount') or
  search_results.get('totalResults') or search_results.get('resultCount') or 0)\<close>.
\<close>

definition total_results_of :: "json \<Rightarrow> error + json" where
  "total_results_of search_results =
     ebind (py_get search_results ''totalResultCount'' JNull) (\<lambda>a.
     if truthy a then Inr a
     else ebind (py_get search_results ''totalResults'' JNull) (\<lambda>b.
          if truthy b then Inr b
          else ebind (py_get search_results ''resultCount'' JNull) (\<lambda>c.
               Inr (if truthy c then c else JInt 0))))"

text \<open>
  \<^verbatim>\<open>total_pages = (total_results + results_per_page - 1) // results_per_page\<close> with
  \<^verbatim>\<open>results_per_page = 20\<close>.
\<close>

definition total_pages_of :: "json \<Rightarrow> error + json" where
  "total_pages_of total_results =
     ebind (ebind (py_add_int total_results 20) (\<lambda>s. py_sub_int s 1))
       (\<lambda>s. py_floordiv_int s 20)"

text \<open>
  \<^verbatim>\<open>pagination = (search_results.get('searchList', {}).get('pagination', {}) or
  search_results.get('pagination', {}) or {})\<close>.
\<close>

definition pagination_of :: "json \<Rightarrow> error + json" where
  "pagination_of search_results =
     ebind (ebind (py_get search_results ''searchList'' (JDict []))
              (\<lambda>search_list. py_get search_list ''pagination'' (JDict []))) (\<lambda>p.
     if truthy p then Inr p
     else ebind (py_get search_results ''pagination'' (JDict [])) (\<lambda>q.
          Inr (if truthy q then q else JDict [])))"

text \<open>
  The body of the \<^verbatim>\<open>try\<close> block of \<^verbatim>\<open>get_pagination_info\<close> (the first
  \<^verbatim>\<open>return\<close> ends the method; the text after it is never run). The argument is the
  result of \<^verbatim>\<open>self.extract_json_data()\<close>; the result is the returned dict.
\<close>

definition pagination_try :: "json option \<Rightarrow> error + (string \<times> json) list" where
  "pagination_try extracted =
     (case extracted of
        None \<Rightarrow> Inr []
      | Some json_data \<Rightarrow>
          if \<not> truthy json_data then Inr []
          else (case extract_search_results json_data of
                  None \<Rightarrow> Inr []
                | Some search_results \<Rightarrow>
                    if \<not> truthy search_results then Inr []
                    else
                      ebind (total_results_of search_results) (\<lambda>total_results.
                      ebind (total_pages_of total_results) (\<lambda>total_pages.
                      ebind (pagination_of search_results) (\<lambda>pagination.
                      ebind (py_get pagination ''currentPage'' (JInt 1)) (\<lambda>current_page.
                      Inr [(''current_page'', current_page),
                           (''total_pages'', total_pages),
                           (''total_results'', total_results)]))))))"

text \<open>\<^verbatim>\<open>get_pagination_info\<close>: \<^verbatim>\<open>except Exception\<close> answers with the empty dict.\<close>

definition get_pagination_info :: "json option \<Rightarrow> (string \<times> json) list" where
  "get_pagination_info extracted =
     (case pagination_try extracted of Inl e \<Rightarrow> [] | Inr info \<Rightarrow> info)"

text \<open>The integer a value stands for in arithmetic, when it is an \<^verbatim>\<open>int\<close> or a \<^verbatim>\<open>bool\<close>.\<close>

fun int_value :: "json \<Rightarrow> int option" where
  "int_value (JInt i) = Some i"
| "int_value (JBool b) = Some (if b then 1 else 0)"
| "int_value _ = None"

definition count_keys :: "string list" where
  "count_keys = [''totalResultCount'', ''totalResults'', ''resultCount'']"

text \<open>A pagination dict is found: a non-empty value at one of the two places read.\<close>

definition pagination_found :: "(string \<times> json) list \<Rightarrow> bool" where
  "pagination_found kvs =
     (truthy (dget (dict_items (dget kvs ''searchList'' (JDict []))) ''pagination'' (JDict []))
      \<or> truthy (dget kvs ''pagination'' (JDict [])))"

definition count_page :: "json \<Rightarrow> json option" where
  "count_page n = Some (page_of_search_results (JDict [(''totalResultCount'', n)]))"

section \<open>scraper.py: the world outside\<close>

text \<open>
  What one \<^verbatim>\<open>requests.post\<close> of \<^verbatim>\<open>fetch_page\<close> leads to: a
  \<^verbatim>\<open>RequestException\<close> other than \<^verbatim>\<open>HTTPError\<close> (no connection, a timeout, a body
  that \<^verbatim>\<open>response.json()\<close> cannot decode), an \<^verbatim>\<open>HTTPError\<close> raised by
  \<^verbatim>\<open>raise_for_status\<close>, or a decoded JSON body.
\<close>

datatype post_outcome = RequestException | HTTPError | Body json

text \<open>
  The functions the scraper calls and does not define. \<open>post k target\<close> is the outcome
  of the POST for \<open>target\<close> when \<open>k\<close> POSTs were made before it (the same URL may be
  answered differently each time). \<open>query_state\<close> is
  \<^verbatim>\<open>unquote(parse_qs(urlparse(base_url).query)['searchQueryState'][0])\<close>, \<open>None\<close> when
  the URL has no such parameter. \<open>json_loads\<close> is \<^verbatim>\<open>json.loads\<close>. \<open>rebuild_url\<close>
  is the URL put together from the parsed base URL, the updated state and the page
  number. \<open>find_next\<close> is \<^verbatim>\<open>BeautifulSoup(html, 'html.parser').find('a', rel='next')\<close>:
  \<open>None\<close> when there is no such anchor, otherwise the anchor's \<^verbatim>\<open>aria-disabled\<close>
  attribute (\<open>None\<close> when it has none).
\<close>

record world =
  post :: "nat \<Rightarrow> string \<Rightarrow> post_outcome"
  query_state :: "string \<Rightarrow> error + string option"
  json_loads :: "string \<Rightarrow> error + json"
  rebuild_url :: "string \<Rightarrow> json \<Rightarrow> int \<Rightarrow> string"
  find_next :: "json \<Rightarrow> error + string option option"

text \<open>\<^verbatim>\<open>obj[key] = v\<close> with a string key.\<close>

fun py_setitem :: "json \<Rightarrow> string \<Rightarrow> json \<Rightarrow> error + json" where
  "py_setitem (JDict kvs) key v = Inr (JDict (AList.update key v kvs))"
| "py_setitem _ key v = Inl TypeError"

section \<open>scraper.py: fetching pages\<close>

text \<open>
  A call of \<^verbatim>\<open>fetch_page\<close> as it is logged here: the URL asked for and what the call
  returned or raised.
\<close>

record fetch_call =
  call_url :: string
  call_result :: "error + json option"

text \<open>
  \<^verbatim>\<open>fetch_page\<close>, as the \<open>k\<close>-th POST. The method first prints \<^verbatim>\<open>url[:100]\<close>. Both
  \<^verbatim>\<open>except\<close> clauses return \<^verbatim>\<open>None\<close>. After a decoded body the method prints
  \<^verbatim>\<open>data.get('status')\<close> and, when \<^verbatim>\<open>"render_flow" in data\<close>,
  \<^verbatim>\<open>data['render_flow'].get('success')\<close>; an \<^verbatim>\<open>AttributeError\<close> of these or a
  \<^verbatim>\<open>UnicodeEncodeError\<close> of a \<^verbatim>\<open>print\<close> is not a \<^verbatim>\<open>RequestException\<close> and leaves the
  method (\<^verbatim>\<open>json.dumps\<close> of the body, printed before, is ASCII). The second component
  is the list of calls made: this one.
\<close>

definition fetch_page ::
  "world \<Rightarrow> nat \<Rightarrow> string \<Rightarrow> (error + json option) \<times> fetch_call list" where
  "fetch_page w k target =
     (let result =
        (if has_surrogate (first_points 100 target) then Inl UnicodeEncodeError
         else
           (case post w k target of
              RequestException \<Rightarrow> Inr None
            | HTTPError \<Rightarrow> Inr None
            | Body data \<Rightarrow>
                ebind (py_get data ''status'' JNull) (\<lambda>status.
                if print_raises status then Inl UnicodeEncodeError
                else if has_key data ''render_flow''
                then ebind (py_getitem data ''render_flow'') (\<lambda>render_flow.
                     ebind (py_get render_flow ''success'' JNull) (\<lambda>success.
                     if print_raises success then Inl UnicodeEncodeError
                     else Inr (Some data)))
                else Inr (Some data))))
      in (result, [\<lparr>call_url = target, call_result = result\<rparr>]))"

text \<open>
  \<^verbatim>\<open>fetch_page_with_url_state\<close>: with a \<^verbatim>\<open>searchQueryState\<close> parameter the state is
  decoded, \<^verbatim>\<open>state['pagination'] = {'currentPage': page_number}\<close> is stored and the
  rebuilt URL is fetched; without it the base URL is fetched. An exception of the URL
  work leaves the method before any call of \<^verbatim>\<open>fetch_page\<close>.
\<close>

definition fetch_page_with_url_state ::
  "world \<Rightarrow> nat \<Rightarrow> string \<Rightarrow> int \<Rightarrow> (error + json option) \<times> fetch_call list" where
  "fetch_page_with_url_state w k base_url page_number =
     (case query_state w base_url of
        Inl e \<Rightarrow> (Inl e, [])
      | Inr None \<Rightarrow> fetch_page w k base_url
      | Inr (Some state_json) \<Rightarrow>
          (case ebind (json_loads w state_json) (\<lambda>state.
                py_setitem state ''pagination'' (JDict [(''currentPage'', JInt page_number)]))
           of
             Inl e \<Rightarrow> (Inl e, [])
           | Inr state \<Rightarrow> fetch_page w k (rebuild_url w base_url state page_number)))"

text \<open>
  \<^verbatim>\<open>html = (result.get("html_content") or result.get("rendered_html") or
  result.get("browser_html") or result.get("html"))\<close>.
\<close>

definition extract_html :: "json \<Rightarrow> error + json" where
  "extract_html result =
     ebind (py_get result ''html_content'' JNull) (\<lambda>a.
     if truthy a then Inr a
     else ebind (py_get result ''rendered_html'' JNull) (\<lambda>b.
          if truthy b then Inr b
          else ebind (py_get result ''browser_html'' JNull) (\<lambda>c.
               if truthy c then Inr c
               else py_get result ''html'' JNull)))"

text \<open>An element of the list \<^verbatim>\<open>fetch_all_pages\<close> returns.\<close>

record page_record =
  page_number :: int
  url :: string
  data :: json

text \<open>
  How one round of the loop of \<^verbatim>\<open>fetch_all_pages\<close> ends: an exception leaves the
  method; \<^verbatim>\<open>if not result: break\<close>; the record is appended and a later \<^verbatim>\<open>break\<close> is
  taken; the record is appended and the loop goes on. \<open>judge\<close> is the body of the loop
  after the fetch, given what the fetch returned or raised.
\<close>

datatype verdict = Raised error | Failed | Last page_record | More page_record

definition judge :: "world \<Rightarrow> string \<Rightarrow> int \<Rightarrow> error + json option \<Rightarrow> verdict" where
  "judge w base_url page_num result =
     (case result of
        Inl e \<Rightarrow> Raised e
      | Inr None \<Rightarrow> Failed
      | Inr (Some d) \<Rightarrow>
          if \<not> truthy d then Failed
          else (case extract_html d of
                  Inl e \<Rightarrow> Raised e
                | Inr html \<Rightarrow>
                    if \<not> truthy html
                    then Last \<lparr>page_number = page_num, url = base_url, data = d\<rparr>
                    else (case find_next w html of
                            Inl e \<Rightarrow> Raised e
                          | Inr None \<Rightarrow>
                              Last \<lparr>page_number = page_num, url = base_url, data = d\<rparr>
                          | Inr (Some aria_disabled) \<Rightarrow>
                              if aria_disabled = Some ''true''
                              then Last \<lparr>page_number = page_num, url = base_url, data = d\<rparr>
                              else More \<lparr>page_number = page_num, url = base_url, data = d\<rparr>)))"

text \<open>
  One round for \<open>page_num\<close> when \<open>k\<close> POSTs were made before it: page 1 is fetched
  with \<^verbatim>\<open>fetch_page\<close>, a later page with \<^verbatim>\<open>fetch_page_with_url_state\<close>; the rest of the
  body is \<open>judge\<close>. The round also yields the calls of \<^verbatim>\<open>fetch_page\<close> it made.
\<close>

definition iteration ::
  "world \<Rightarrow> string \<Rightarrow> int \<Rightarrow> nat \<Rightarrow> verdict \<times> fetch_call list" where
  "iteration w base_url page_num k =
     (case (if page_num = 1 then fetch_page w k base_url
            else fetch_page_with_url_state w k base_url page_num) of
        (result, calls) \<Rightarrow> (judge w base_url page_num result, calls))"

text \<open>
  The log of a run: for every round of the loop, in order, its page number and the
  calls of \<^verbatim>\<open>fetch_page\<close> made in it.
\<close>

record attempt =
  at_page :: int
  at_calls :: "fetch_call list"

definition calls_made :: "attempt list \<Rightarrow> nat" where
  "calls_made trace = length (concat (map at_calls trace))"

text \<open>
  The loop \<^verbatim>\<open>for page_num in range(1, max_pages + 1)\<close> over the page numbers still to
  come, with \<^verbatim>\<open>all_pages\<close> and the trace so far.
\<close>

fun fetch_loop ::
  "world \<Rightarrow> string \<Rightarrow> int list \<Rightarrow> page_record list \<Rightarrow> attempt list
     \<Rightarrow> (error + page_record list) \<times> attempt list" where
  "fetch_loop w base_url [] all_pages trace = (Inr all_pages, trace)"
| "fetch_loop w base_url (page_num # rest) all_pages trace =
     (case iteration w base_url page_num (calls_made trace) of
        (v, calls) \<Rightarrow>
          (case v of
             Raised e \<Rightarrow> (Inl e, trace @ [\<lparr>at_page = page_num, at_calls = calls\<rparr>])
           | Failed \<Rightarrow> (Inr all_pages, trace @ [\<lparr>at_page = page_num, at_calls = calls\<rparr>])
           | Last p \<Rightarrow> (Inr (all_pages @ [p]), trace @ [\<lparr>at_page = page_num, at_calls = calls\<rparr>])
           | More p \<Rightarrow>
               fetch_loop w base_url rest (all_pages @ [p])
                 (trace @ [\<lparr>at_page = page_num, at_calls = calls\<rparr>])))"

definition fetch_all_pages ::
  "world \<Rightarrow> string \<Rightarrow> int \<Rightarrow> (error + page_record list) \<times> attempt list" where
  "fetch_all_pages w base_url max_pages = fetch_loop w base_url [1..max_pages] [] []"

text \<open>
  The condition under which a round lets the loop go on: its one call returned a truthy
  dict, the first non-empty value among the four HTML keys exists, and the anchor found
  in it is not disabled.
\<close>

definition html_keys :: "string list" where
  "html_keys = [''html_content'', ''rendered_html'', ''browser_html'', ''html'']"

fun enabled_next :: "error + string option option \<Rightarrow> bool" where
  "enabled_next (Inr (Some aria_disabled)) = (aria_disabled \<noteq> Some ''true'')"
| "enabled_next _ = False"

definition page_html :: "json \<Rightarrow> json" where
  "page_html d = first_truthy (map (\<lambda>key. dget (dict_items d) key JNull) html_keys) JNull"

definition next_page_allowed :: "world \<Rightarrow> attempt \<Rightarrow> bool" where
  "next_page_allowed w a =
     (case at_calls a of
        [c] \<Rightarrow>
          (case call_result c of
             Inr (Some d) \<Rightarrow>
               truthy d \<and> is_dict d \<and> truthy (page_html d) \<and> enabled_next (find_next w (page_html d))
           | _ \<Rightarrow> False)
      | _ \<Rightarrow> False)"

text \<open>
  A returned record belongs to a round: the round is for the record's page number and
  made one call of \<^verbatim>\<open>fetch_page\<close>, which returned the record's data.
\<close>

definition fetched_in :: "page_record \<Rightarrow> attempt \<Rightarrow> bool" where
  "fetched_in p a =
     (at_page a = page_number p
      \<and> (case at_calls a of
            [c] \<Rightarrow> call_result c = Inr (Some (data p))
          | _ \<Rightarrow> False))"

text \<open>
  Examples. The base URL has no query, or the query \<^verbatim>\<open>searchQueryState=%7B\<close>, whose
  decoded state \<^verbatim>\<open>{\<close> is not JSON. \<open>find_next_example\<close> answers for the two documents
  of the examples as \<^verbatim>\<open>html.parser\<close> does, and \<open>json_loads\<close> of the example world for
  the one string \<^verbatim>\<open>{\<close>; the examples pass them nothing else and rebuild no URL.
\<close>

definition plain_url :: string where
  "plain_url = ''https://www.zillow.com/denver-co/rentals/''"

definition broken_state_url :: string where
  "broken_state_url = ''https://www.zillow.com/denver-co/rentals/?searchQueryState=%7B''"

definition next_link_html :: json where
  "next_link_html = JStr ''<a rel=next href=/denver-co/rentals/2_p/>Next</a>''"

definition disabled_link_html :: json where
  "disabled_link_html = JStr ''<a rel=next aria-disabled=true>Next</a>''"

definition find_next_example :: "json \<Rightarrow> error + string option option" where
  "find_next_example html =
     (if html = next_link_html then Inr (Some None)
      else if html = disabled_link_html then Inr (Some (Some ''true''))
      else Inl TypeError)"

definition example_world :: "(nat \<Rightarrow> string \<Rightarrow> post_outcome) \<Rightarrow> world" where
  "example_world answers =
     \<lparr>post = answers,
      query_state = (\<lambda>u. if u = broken_state_url then Inr (Some ''{'') else Inr None),
      json_loads = (\<lambda>s. Inl ValueError),
      rebuild_url = (\<lambda>u state n. u),
      find_next = find_next_example\<rparr>"

text \<open>A site of two pages: the first links to the next, the second has the link disabled.\<close>

definition two_pages :: "nat \<Rightarrow> string \<Rightarrow> post_outcome" where
  "two_pages k target =
     (if k = 0 then Body (JDict [(''status'', JStr ''success''), (''html_content'', next_link_html)])
      else Body (JDict [(''status'', JStr ''success''), (''html_content'', disabled_link_html)]))"

text \<open>A site whose every page links to the next.\<close>

definition endless_pages :: "nat \<Rightarrow> string \<Rightarrow> post_outcome" where
  "endless_pages k target =
     Body (JDict [(''status'', JStr ''success''), (''html_content'', next_link_html)])"

text \<open>An answer with \<^verbatim>\<open>"render_flow": null\<close>.\<close>

definition null_render_flow :: "nat \<Rightarrow> string \<Rightarrow> post_outcome" where
  "null_render_flow k target =
     Body (JDict [(''status'', JStr ''success''), (''html_content'', next_link_html),
                  (''render_flow'', JNull)])"

section \<open>Properties of the search-result lookup\<close>

lemma follow_path_empty_dict: "follow_path (JDict []) path = Inr (JDict [])"
  by (induction path) simp_all

lemma follow_path_raises_iff: "(\<exists>e. follow_path v path = Inl e) \<longleftrightarrow> \<not> dicts_along v path"
proof (induction path arbitrary: v)
  case Nil
  show ?case by simp
next
  case (Cons key path)
  show ?case
  proof (cases v)
    case (JDict kvs)
    then show ?thesis
      using Cons.IH by (cases "map_of kvs key") (simp_all add: follow_path_empty_dict)
  qed simp_all
qed

lemma follow_path_value:
  "follow_path v path = Inr d \<Longrightarrow> value_at v path = Some d \<or> (value_at v path = None \<and> d = JDict [])"
proof (induction path arbitrary: v)
  case Nil
  then show ?case by simp
next
  case (Cons key path)
  show ?case
  proof (cases v)
    case (JDict kvs)
    then show ?thesis
      using Cons by (cases "map_of kvs key") (simp_all add: follow_path_empty_dict)
  qed (use Cons.prems in simp_all)
qed

lemma value_at_follow_path: "value_at v path = Some d \<Longrightarrow> follow_path v path = Inr d"
proof (induction path arbitrary: v)
  case Nil
  then show ?case by simp
next
  case (Cons key path)
  show ?case
  proof (cases v)
    case (JDict kvs)
    then show ?thesis
      using Cons by (cases "map_of kvs key") simp_all
  qed (use Cons.prems in simp_all)
qed

lemma try_paths_first_listing_path: "try_paths json_data paths = first_listing_path json_data paths"
proof (induction paths)
  case Nil
  show ?case by (simp add: first_listing_path_def)
next
  case (Cons path paths)
  show ?case
  proof (cases "follow_path json_data path")
    case (Inl e)
    then have "\<not> dicts_along json_data path"
      using follow_path_raises_iff by blast
    then have "value_at json_data path = None"
      by (induction json_data path rule: dicts_along.induct) (simp_all split: option.splits)
    with Inl Cons show ?thesis
      by (simp add: first_listing_path_def)
  next
    case (Inr d)
    from follow_path_value [OF Inr] show ?thesis
    proof
      assume "value_at json_data path = Some d"
      with Inr Cons show ?thesis
        by (simp add: first_listing_path_def)
    next
      assume "value_at json_data path = None \<and> d = JDict []"
      with Inr Cons show ?thesis
        by (simp add: first_listing_path_def)
    qed
  qed
qed

lemma primary_chain:
  "ebind (py_get json_data ''props'' (JDict [])) (\<lambda>props.
   ebind (py_get props ''pageProps'' (JDict [])) (\<lambda>page_props.
   ebind (py_get page_props ''searchPageState'' (JDict [])) (\<lambda>search_page_state.
   ebind (py_get search_page_state ''cat1'' (JDict [])) (\<lambda>cat1.
   py_get cat1 ''searchResults'' (JDict [])))))
   = follow_path json_data primary_path"
  by (simp add: primary_path_def ebind_def split: sum.splits)

lemma extract_search_results_follow:
  "extract_search_results json_data =
     (case follow_path json_data primary_path of
        Inl e \<Rightarrow> None
      | Inr sr \<Rightarrow> if \<not> truthy sr then try_alternative_paths json_data else Some sr)"
  unfolding extract_search_results_def primary_chain ..

text \<open>
  Claim C2, as amended. For every JSON dict: when every value met on the way down the
  fixed path props, pageProps, searchPageState, cat1, searchResults is a dict, the result
  is the value at that path if it is non-empty, and otherwise the value of the first of
  the three alternative paths, in their listed order, that holds a non-empty dict with
  the key listResults (None when there is none); when a value on the fixed path is
  present but is not a dict, the result is None and no alternative path is consulted.
\<close>

theorem extract_search_results_paths:
  assumes "is_dict json_data"
  shows "(dicts_along json_data primary_path \<longrightarrow>
           extract_search_results json_data =
             (case value_at json_data primary_path of
                Some v \<Rightarrow> if truthy v then Some v
                          else first_listing_path json_data alternative_paths
              | None \<Rightarrow> first_listing_path json_data alternative_paths))
       \<and> (\<not> dicts_along json_data primary_path \<longrightarrow> extract_search_results json_data = None)"
proof (intro conjI impI)
  assume ok: "dicts_along json_data primary_path"
  then obtain d where d: "follow_path json_data primary_path = Inr d"
    using follow_path_raises_iff [of json_data primary_path]
    by (cases "follow_path json_data primary_path") auto
  from follow_path_value [OF d]
  show "extract_search_results json_data =
          (case value_at json_data primary_path of
             Some v \<Rightarrow> if truthy v then Some v
                       else first_listing_path json_data alternative_paths
           | None \<Rightarrow> first_listing_path json_data alternative_paths)"
    using d
    by (auto simp: extract_search_results_follow try_alternative_paths_def
        try_paths_first_listing_path)
next
  assume "\<not> dicts_along json_data primary_path"
  then obtain e where "follow_path json_data primary_path = Inl e"
    using follow_path_raises_iff by blast
  then show "extract_search_results json_data = None"
    by (simp add: extract_search_results_follow)
qed

theorem extract_search_results_paths_witness:
  "is_dict component_props_page
   \<and> dicts_along component_props_page primary_path
   \<and> extract_search_results component_props_page
       = Some (JDict [(''listResults'', JList [JInt 7])])"
  using extract_search_results_paths [of component_props_page]
  by (simp add: component_props_page_def primary_path_def alternative_paths_def
      first_listing_path_def)

theorem extract_search_results_null_cat1:
  "is_dict null_cat1_page
   \<and> value_at null_cat1_page primary_path = None
   \<and> first_listing_path null_cat1_page alternative_paths
       = Some (JDict [(''listResults'', JList [])])
   \<and> extract_search_results null_cat1_page = None"
  by (simp add: null_cat1_page_def primary_path_def alternative_paths_def
      first_listing_path_def extract_search_results_def ebind_def)

section \<open>Properties of parse_property\<close>

lemma py_get_if:
  "py_get v key dflt =
     (if is_dict v then Inr (dget (dict_items v) key dflt) else Inl AttributeError)"
  by (cases v) (simp_all add: dget_def)

lemma ebind_Inr_iff: "ebind m f = Inr y \<longleftrightarrow> (\<exists>x. m = Inr x \<and> f x = Inr y)"
  by (cases m) (simp_all add: ebind_def)

lemma ebind_Inr [simp]: "ebind (Inr x) f = f x"
  by (simp add: ebind_def)

lemma ebind_Inl [simp]: "ebind (Inl e) f = Inl e"
  by (simp add: ebind_def)

lemma absolute_detail_url_ok:
  "(\<exists>u. absolute_detail_url d = Inr u) \<longleftrightarrow> (is_str d \<or> \<not> truthy d)"
  by (cases d) (simp_all add: absolute_detail_url_def)

lemma parse_property_try_keys:
  "parse_property_try str_of prop_data = Inr (Some r) \<Longrightarrow> map fst r = known_keys"
  by (auto simp: parse_property_try_def ebind_Inr_iff known_keys_def split: if_splits)

lemma parse_property_try_fields:
  assumes "parse_property_try str_of (JDict kvs) = Inr (Some r)"
  shows "map_of r ''address'' = Some (dget kvs ''addressStreet'' (JStr []))
     \<and> map_of r ''city'' = Some (dget kvs ''addressCity'' (JStr []))
     \<and> map_of r ''state'' = Some (dget kvs ''addressState'' (JStr []))
     \<and> map_of r ''zipcode'' = Some (dget kvs ''addressZipcode'' (JStr []))
     \<and> map_of r ''price'' = Some (dget kvs ''price'' JNull)
     \<and> map_of r ''bedrooms'' = Some (dget kvs ''beds'' JNull)
     \<and> map_of r ''bathrooms'' = Some (dget kvs ''baths'' JNull)
     \<and> map_of r ''latitude''
         = Some (dget (dict_items (dget kvs ''latLong'' (JDict []))) ''latitude'' JNull)
     \<and> map_of r ''longitude''
         = Some (dget (dict_items (dget kvs ''latLong'' (JDict []))) ''longitude'' JNull)"
  using assms
  by (auto simp: parse_property_try_def ebind_Inr_iff py_get_if split: if_splits)

lemma parse_property_try_ok:
  assumes "truthy (dget kvs ''zpid'' JNull)" "nested_fields_ok kvs"
  shows "\<exists>r. parse_property_try str_of (JDict kvs) = Inr (Some r)"
proof -
  obtain u where "absolute_detail_url (dget kvs ''detailUrl'' (JStr [])) = Inr u"
    using assms(2) absolute_detail_url_ok [of "dget kvs ''detailUrl'' (JStr [])"]
    by (auto simp: nested_fields_ok_def)
  then show ?thesis
    using assms by (simp add: parse_property_try_def py_get_if nested_fields_ok_def)
qed

lemma parse_property_try_raises:
  assumes "truthy (dget kvs ''zpid'' JNull)" "\<not> nested_fields_ok kvs"
  shows "\<exists>e. parse_property_try str_of (JDict kvs) = Inl e"
proof (cases "absolute_detail_url (dget kvs ''detailUrl'' (JStr []))")
  case (Inl e)
  then show ?thesis
    using assms(1) by (simp add: parse_property_try_def py_get_if)
next
  case (Inr u)
  then have "is_str (dget kvs ''detailUrl'' (JStr [])) \<or> \<not> truthy (dget kvs ''detailUrl'' (JStr []))"
    using absolute_detail_url_ok by blast
  with Inr show ?thesis
    using assms by (auto simp add: parse_property_try_def py_get_if nested_fields_ok_def)
qed

lemma parse_property_dict:
  "parse_property str_of (JDict kvs) =
     (case parse_property_try str_of (JDict kvs) of
        Inr r \<Rightarrow> Inr r
      | Inl e \<Rightarrow>
          if print_raises (dget kvs ''zpid'' (JStr ''unknown'')) then Inl UnicodeEncodeError
          else Inr None)"
  by (simp add: parse_property_def dget_def split: sum.splits)

lemma parse_property_keys:
  "parse_property str_of prop_data = Inr (Some r) \<Longrightarrow> map fst r = known_keys"
  by (auto simp: parse_property_def ebind_Inr_iff split: sum.splits if_splits
      dest: parse_property_try_keys)

text \<open>
  Claim C3, as amended. For every property dict with a truthy zpid: when the nested
  objects it reads (hdpData, homeInfo, variableData, latLong) are dicts or missing and
  detailUrl is a string, falsy or missing, parse_property returns a record; and every
  record it returns has address, city, state, zipcode, price, bedrooms, bathrooms,
  latitude and longitude equal to the input's addressStreet, addressCity, addressState,
  addressZipcode, price, beds, baths, latLong.latitude and latLong.longitude (a missing
  address part is the empty string, another missing value is None).
\<close>

theorem parse_property_fields:
  assumes "truthy (dget kvs ''zpid'' JNull)"
  shows "(nested_fields_ok kvs \<longrightarrow> (\<exists>r. parse_property str_of (JDict kvs) = Inr (Some r)))
       \<and> (\<forall>r. parse_property str_of (JDict kvs) = Inr (Some r) \<longrightarrow>
             map_of r ''address'' = Some (dget kvs ''addressStreet'' (JStr []))
           \<and> map_of r ''city'' = Some (dget kvs ''addressCity'' (JStr []))
           \<and> map_of r ''state'' = Some (dget kvs ''addressState'' (JStr []))
           \<and> map_of r ''zipcode'' = Some (dget kvs ''addressZipcode'' (JStr []))
           \<and> map_of r ''price'' = Some (dget kvs ''price'' JNull)
           \<and> map_of r ''bedrooms'' = Some (dget kvs ''beds'' JNull)
           \<and> map_of r ''bathrooms'' = Some (dget kvs ''baths'' JNull)
           \<and> map_of r ''latitude''
               = Some (dget (dict_items (dget kvs ''latLong'' (JDict []))) ''latitude'' JNull)
           \<and> map_of r ''longitude''
               = Some (dget (dict_items (dget kvs ''latLong'' (JDict []))) ''longitude'' JNull))"
proof -
  have ok: "\<exists>r. parse_property str_of (JDict kvs) = Inr (Some r)" if "nested_fields_ok kvs"
    using parse_property_try_ok [OF assms that, of str_of]
    by (auto simp: parse_property_dict)
  have fields: "parse_property_try str_of (JDict kvs) = Inr (Some r)"
    if "parse_property str_of (JDict kvs) = Inr (Some r)" for r
    using that by (simp add: parse_property_dict split: sum.splits if_splits)
  show ?thesis
    using ok parse_property_try_fields [OF fields] by blast
qed

theorem parse_property_fields_witness:
  "truthy (dget listing_example ''zpid'' JNull)
   \<and> nested_fields_ok listing_example
   \<and> (case parse_property str_of_example (JDict listing_example) of
        Inr (Some r) \<Rightarrow>
          map_of r ''address'' = Some (JStr ''12 Elm St'')
          \<and> map_of r ''zipcode'' = Some (JStr ''80203'')
          \<and> map_of r ''bedrooms'' = Some (JInt 5)
          \<and> map_of r ''longitude'' = Some (JInt (- 105))
      | _ \<Rightarrow> False)"
proof -
  have z: "truthy (dget listing_example ''zpid'' JNull)"
    by (simp add: listing_example_def dget_def)
  have n: "nested_fields_ok listing_example"
    by (simp add: listing_example_def dget_def nested_fields_ok_def)
  from parse_property_fields [OF z, of str_of_example] n
  obtain r where r: "parse_property str_of_example (JDict listing_example) = Inr (Some r)"
    by blast
  with parse_property_fields [OF z, of str_of_example]
  have "map_of r ''address'' = Some (dget listing_example ''addressStreet'' (JStr []))
      \<and> map_of r ''zipcode'' = Some (dget listing_example ''addressZipcode'' (JStr []))
      \<and> map_of r ''bedrooms'' = Some (dget listing_example ''beds'' JNull)
      \<and> map_of r ''longitude''
          = Some (dget (dict_items (dget listing_example ''latLong'' (JDict []))) ''longitude'' JNull)"
    by blast
  then show ?thesis
    using z n r by (simp add: listing_example_def dget_def)
qed

text \<open>
  A listing with a truthy zpid and \<^verbatim>\<open>"latLong": null\<close>: \<^verbatim>\<open>lat_long.get\<close> raises inside
  the \<^verbatim>\<open>try\<close> block and the result is None, not a record.
\<close>

theorem parse_property_null_latlong:
  "truthy (dget null_latlong_listing ''zpid'' JNull)
   \<and> parse_property str_of_example (JDict null_latlong_listing) = Inr None"
  by (simp add: null_latlong_listing_def dget_def parse_property_def parse_property_try_def
      absolute_detail_url_def)

text \<open>
  Claim C9 at the dict \<^verbatim>\<open>{"zpid": "\ud800", "latLong": null}\<close>: \<^verbatim>\<open>lat_long.get\<close>
  raises inside the \<^verbatim>\<open>try\<close> block, the handler formats the zpid into its message, and
  \<^verbatim>\<open>print\<close> cannot encode the surrogate: \<^verbatim>\<open>UnicodeEncodeError\<close> leaves
  parse_property, which returns neither a dict nor None.
\<close>

theorem parse_property_surrogate_zpid:
  "is_dict (JDict surrogate_zpid_listing)
   \<and> parse_property str_of_example (JDict surrogate_zpid_listing) = Inl UnicodeEncodeError"
  by (simp add: surrogate_zpid_listing_def parse_property_def parse_property_try_def
      absolute_detail_url_def)

text \<open>
  What parse_property does on a dict: it returns None or a record with the known keys,
  or the handler's \<^verbatim>\<open>print\<close> raises, which needs a zpid that is a string holding a
  surrogate.
\<close>

lemma parse_property_on_dicts:
  "parse_property str_of (JDict kvs) = Inr None
   \<or> (\<exists>r. parse_property str_of (JDict kvs) = Inr (Some r) \<and> map fst r = known_keys)
   \<or> (parse_property str_of (JDict kvs) = Inl UnicodeEncodeError
        \<and> print_raises (dget kvs ''zpid'' (JStr ''unknown'')))"
proof (cases "parse_property_try str_of (JDict kvs)")
  case (Inl e)
  then show ?thesis
    by (simp add: parse_property_dict)
next
  case (Inr res)
  then have "parse_property str_of (JDict kvs) = Inr res"
    by (simp add: parse_property_dict)
  then show ?thesis
    using parse_property_keys [of str_of "JDict kvs"] by (cases res) simp_all
qed

text \<open>
  On a value that is not a dict (here \<^verbatim>\<open>None\<close>) the first \<^verbatim>\<open>prop_data.get\<close> raises,
  the handler's own \<^verbatim>\<open>prop_data.get('zpid', 'unknown')\<close> raises again, and that
  \<^verbatim>\<open>AttributeError\<close> reaches the caller.
\<close>

lemma parse_property_non_dict_raises:
  "parse_property str_of_example JNull = Inl AttributeError"
  by (simp add: parse_property_def parse_property_try_def)

section \<open>Properties of parse_all_properties\<close>

lemma parse_each_keys:
  assumes "parse_each str_of items acc = Inr properties"
    and "\<forall>r\<in>set acc. map fst r = known_keys"
  shows "\<forall>r\<in>set properties. map fst r = known_keys"
  using assms
proof (induction items arbitrary: acc)
  case Nil
  then show ?case by simp
next
  case (Cons prop_data rest)
  show ?case
  proof (cases "parse_property str_of prop_data")
    case (Inl e)
    with Cons.prems show ?thesis by simp
  next
    case (Inr res)
    show ?thesis
    proof (cases res)
      case None
      with Inr Cons show ?thesis by simp
    next
      case (Some prop_info)
      then have "map fst prop_info = known_keys"
        using Inr parse_property_keys by blast
      with Some Inr Cons.prems Cons.IH [of "acc @ [prop_info]"] Cons.IH [of acc]
      show ?thesis by (simp split: if_splits sum.splits)
    qed
  qed
qed

lemma parse_all_properties_keys:
  assumes "parse_all_properties str_of extracted = Inr properties"
  shows "\<forall>r\<in>set properties. map fst r = known_keys"
proof -
  have "properties = [] \<or> (\<exists>items. parse_each str_of items [] = Inr properties)"
    using assms
    by (auto simp: parse_all_properties_def ebind_Inr_iff split: option.splits if_splits)
  then show ?thesis
    using parse_each_keys [of str_of _ "[]" properties] by auto
qed

text \<open>
  Claim C4. Every record that parse_property returns is a dict with exactly the 25 known
  keys (zpid, address, ..., is_featured; no key twice), whatever keys the input has, and
  so is every element of a list that parse_all_properties returns.
\<close>

theorem known_keys_invariant:
  "(parse_property str_of prop_data = Inr (Some r) \<longrightarrow> map fst r = known_keys)
   \<and> (parse_all_properties str_of extracted = Inr properties \<longrightarrow>
        (\<forall>p\<in>set properties. map fst p = known_keys))
   \<and> distinct known_keys \<and> length known_keys = 25"
proof -
  have "distinct known_keys \<and> length known_keys = 25"
    by (simp add: known_keys_def)
  then show ?thesis
    using parse_property_keys [of str_of prop_data r]
      parse_all_properties_keys [of str_of extracted properties]
    by blast
qed

lemma map_results_page_parsed:
  "\<exists>r. parse_all_properties str_of_example (Some (page_of_search_results (JDict map_results_only))) = Inr [r]"
  by (simp add: page_of_search_results_def map_results_only_def parse_all_properties_def
        extract_search_results_def choose_list_results_def listing_example_def
        parse_property_def parse_property_try_def absolute_detail_url_def)

theorem known_keys_invariant_witness:
  "(case parse_all_properties str_of_example
           (Some (page_of_search_results (JDict map_results_only))) of
      Inr [r] \<Rightarrow> map fst r = known_keys
    | _ \<Rightarrow> False)"
proof -
  obtain r where r: "parse_all_properties str_of_example
      (Some (page_of_search_results (JDict map_results_only))) = Inr [r]"
    using map_results_page_parsed by blast
  with known_keys_invariant [of str_of_example JNull "[]"
      "Some (page_of_search_results (JDict map_results_only))" "[r]"]
  show ?thesis by simp
qed

lemma extract_search_results_truthy:
  "extract_search_results json_data = Some sr \<Longrightarrow> truthy sr"
proof -
  have "try_paths json_data paths = Some sr \<Longrightarrow> truthy sr" for paths
    by (induction paths) (auto split: sum.splits if_splits)
  then show "extract_search_results json_data = Some sr \<Longrightarrow> truthy sr"
    by (auto simp: extract_search_results_follow try_alternative_paths_def
        split: sum.splits if_splits)
qed

lemma choose_list_results_dict:
  "choose_list_results (JDict kvs) =
     Inr (first_truthy [dget kvs ''listResults'' (JList []), dget kvs ''results'' (JList [])]
            (dget kvs ''mapResults'' (JList [])))"
  by (simp add: choose_list_results_def first_truthy_def py_get_if)

lemma first_truthy_lists:
  assumes "list_all is_list (entries_under kvs list_keys)"
  shows "first_truthy [dget kvs ''listResults'' (JList []), dget kvs ''results'' (JList [])]
            (dget kvs ''mapResults'' (JList []))
         = first_truthy (entries_under kvs list_keys) (JList [])"
    and "is_list (first_truthy (entries_under kvs list_keys) (JList []))"
  using assms
  by (cases "map_of kvs ''listResults''"; cases "map_of kvs ''results''";
      cases "map_of kvs ''mapResults''";
      auto simp: first_truthy_def entries_under_def list_keys_def dget_def elim: is_list.elims)+

text \<open>
  The value parse_all_properties goes on with, on a search-results dict: the entry under
  listResults when it is non-empty, otherwise the entry under results when that is
  non-empty, otherwise the entry under mapResults or, without that key, the empty list.
  When every entry present under the three keys is a list, this is the first non-empty
  list in the order listResults, results, mapResults, and the empty list if there is
  none; the records are then parsed from the elements of that list.
\<close>

lemma choose_list_results_order:
  "choose_list_results (JDict kvs) =
     Inr (first_truthy [dget kvs ''listResults'' (JList []), dget kvs ''results'' (JList [])]
            (dget kvs ''mapResults'' (JList [])))
   \<and> (list_all is_list (entries_under kvs list_keys) \<longrightarrow>
        choose_list_results (JDict kvs)
          = Inr (first_truthy (entries_under kvs list_keys) (JList []))
        \<and> (truthy json_data \<and> extract_search_results json_data = Some (JDict kvs) \<longrightarrow>
             (\<exists>items. first_truthy (entries_under kvs list_keys) (JList []) = JList items
                \<and> parse_all_properties str_of (Some json_data) = parse_each str_of items [])))"
proof (intro conjI impI)
  show "choose_list_results (JDict kvs) =
     Inr (first_truthy [dget kvs ''listResults'' (JList []), dget kvs ''results'' (JList [])]
            (dget kvs ''mapResults'' (JList [])))"
    by (rule choose_list_results_dict)
next
  assume lists: "list_all is_list (entries_under kvs list_keys)"
  then show c: "choose_list_results (JDict kvs)
          = Inr (first_truthy (entries_under kvs list_keys) (JList []))"
    by (simp add: choose_list_results_dict first_truthy_lists(1))
  assume "truthy json_data \<and> extract_search_results json_data = Some (JDict kvs)"
  then have j: "truthy json_data" and e: "extract_search_results json_data = Some (JDict kvs)"
    by simp_all
  from first_truthy_lists(2) [OF lists]
  obtain items where items: "first_truthy (entries_under kvs list_keys) (JList []) = JList items"
    by (auto elim: is_list.elims)
  have "truthy (JDict kvs)"
    using e by (rule extract_search_results_truthy)
  then have "parse_all_properties str_of (Some json_data) = parse_each str_of items []"
    using j e c items by (simp add: parse_all_properties_def)
  with items show "\<exists>items. first_truthy (entries_under kvs list_keys) (JList []) = JList items
                \<and> parse_all_properties str_of (Some json_data) = parse_each str_of items []"
    by blast
qed

lemma choose_list_results_order_example:
  "list_all is_list (entries_under map_results_only list_keys)
   \<and> truthy (page_of_search_results (JDict map_results_only))
   \<and> extract_search_results (page_of_search_results (JDict map_results_only))
       = Some (JDict map_results_only)
   \<and> choose_list_results (JDict map_results_only) = Inr (JList [JDict listing_example])"
  using choose_list_results_order [of map_results_only "page_of_search_results (JDict map_results_only)" str_of_example]
  by (simp add: map_results_only_def entries_under_def list_keys_def
      page_of_search_results_def extract_search_results_def first_truthy_def dget_def)

text \<open>
  Claim C6 at search results with \<^verbatim>\<open>"listResults": []\<close> and \<^verbatim>\<open>"mapResults": null\<close>:
  no non-empty list is found under the three keys, so the claim has the empty list used
  (and no record parsed); the code goes on with \<^verbatim>\<open>None\<close>, and \<^verbatim>\<open>len(list_results)\<close>
  raises \<^verbatim>\<open>TypeError\<close> out of parse_all_properties.
\<close>

theorem choose_list_results_null_map_results:
  "choose_list_results (JDict null_map_results) = Inr JNull
   \<and> first_truthy (entries_under null_map_results list_keys) (JList []) = JList []
   \<and> parse_all_properties str_of_example
        (Some (page_of_search_results (JDict null_map_results))) = Inl TypeError"
  by (simp add: null_map_results_def choose_list_results_def entries_under_def list_keys_def first_truthy_def page_of_search_results_def
      parse_all_properties_def extract_search_results_def)

section \<open>Properties of get_pagination_info\<close>

lemma ceiling_div_20: "\<lceil>rat_of_int n / 20\<rceil> = (n + 19) div 20"
  by linarith

lemma total_pages_of_int:
  assumes "int_value v = Some n"
  shows "total_pages_of v = Inr (JInt ((n + 19) div 20))"
  using assms by (cases v) (auto simp: total_pages_of_def algebra_simps)

lemma total_results_of_dict:
  "total_results_of (JDict kvs)
     = Inr (first_truthy (map (\<lambda>key. dget kvs key JNull) count_keys) (JInt 0))"
  by (simp add: total_results_of_def first_truthy_def count_keys_def py_get_if)

lemma pagination_of_not_found:
  "\<not> pagination_found kvs \<Longrightarrow> pagination_of (JDict kvs) = Inr p \<Longrightarrow> p = JDict []"
  by (auto simp: pagination_of_def pagination_found_def ebind_Inr_iff py_get_if split: if_splits)

lemma total_results_of_raises: "\<not> is_dict sr \<Longrightarrow> total_results_of sr = Inl AttributeError"
  by (simp add: total_results_of_def py_get_if)

lemma pagination_try_nonempty:
  assumes "pagination_try extracted = Inr info" "info \<noteq> []"
  shows "\<exists>json_data kvs. extracted = Some json_data \<and> truthy json_data
           \<and> extract_search_results json_data = Some (JDict kvs)"
proof -
  from assms obtain json_data sr where
    e: "extracted = Some json_data" "truthy json_data" "extract_search_results json_data = Some sr"
    and tr: "\<exists>x. total_results_of sr = Inr x"
    by (auto simp: pagination_try_def ebind_Inr_iff split: option.splits if_splits)
  from tr have "is_dict sr"
    using total_results_of_raises by fastforce
  then obtain kvs where "sr = JDict kvs"
    by (cases sr) simp_all
  with e show ?thesis by blast
qed

lemma pagination_try_dict:
  assumes "extract_search_results json_data = Some (JDict kvs)" "truthy json_data"
    and "pagination_try (Some json_data) = Inr info"
  shows "map_of info ''total_results''
           = Some (first_truthy (map (\<lambda>key. dget kvs key JNull) count_keys) (JInt 0))"
    and "\<And>n. int_value (first_truthy (map (\<lambda>key. dget kvs key JNull) count_keys) (JInt 0)) = Some n
           \<Longrightarrow> map_of info ''total_pages'' = Some (JInt ((n + 19) div 20))"
    and "\<not> pagination_found kvs \<Longrightarrow> map_of info ''current_page'' = Some (JInt 1)"
proof -
  let ?tr = "first_truthy (map (\<lambda>key. dget kvs key JNull) count_keys) (JInt 0)"
  have t: "truthy (JDict kvs)"
    using assms(1) by (rule extract_search_results_truthy)
  from assms t obtain total_pages pagination current_page where
    tp: "total_pages_of ?tr = Inr total_pages"
    and pg: "pagination_of (JDict kvs) = Inr pagination"
    and cp: "py_get pagination ''currentPage'' (JInt 1) = Inr current_page"
    and info: "info = [(''current_page'', current_page), (''total_pages'', total_pages),
          (''total_results'', ?tr)]"
    by (auto simp: pagination_try_def total_results_of_dict ebind_Inr_iff simp del: truthy.simps)
  show "map_of info ''total_results'' = Some ?tr"
    by (simp add: info)
  show "map_of info ''total_pages'' = Some (JInt ((n + 19) div 20))"
    if "int_value ?tr = Some n" for n
    using tp total_pages_of_int [OF that] by (simp add: info)
  show "map_of info ''current_page'' = Some (JInt 1)" if "\<not> pagination_found kvs"
    using pagination_of_not_found [OF that pg] cp by (simp add: info)
qed

text \<open>
  Claim C8, as amended. Whenever get_pagination_info returns a non-empty dict, its
  total_results is the first truthy value among the keys totalResultCount, totalResults
  and resultCount of the search results, 0 if there is none; when that value is an
  integer n (an int, or a bool counted as 0 or 1), total_pages is (n + 19) // 20, the
  ceiling of n / 20, so that it is 0 for n = 0 and 20 * (total_pages - 1) < n and
  n <= 20 * total_pages; and current_page is 1 when no pagination dict is found.
\<close>

theorem total_pages_ceiling:
  assumes "get_pagination_info extracted = info" and "info \<noteq> []"
  shows "\<exists>json_data kvs.
           extracted = Some json_data
         \<and> extract_search_results json_data = Some (JDict kvs)
         \<and> map_of info ''total_results''
             = Some (first_truthy (map (\<lambda>key. dget kvs key JNull) count_keys) (JInt 0))
         \<and> (\<forall>n. int_value (first_truthy (map (\<lambda>key. dget kvs key JNull) count_keys) (JInt 0))
                  = Some n \<longrightarrow>
                (\<exists>pages. map_of info ''total_pages'' = Some (JInt pages)
                   \<and> pages = (n + 19) div 20
                   \<and> pages = \<lceil>rat_of_int n / 20\<rceil>
                   \<and> (n = 0 \<longrightarrow> pages = 0)
                   \<and> 20 * (pages - 1) < n \<and> n \<le> 20 * pages))
         \<and> (\<not> pagination_found kvs \<longrightarrow> map_of info ''current_page'' = Some (JInt 1))"
proof -
  from assms have body: "pagination_try extracted = Inr info"
    by (auto simp: get_pagination_info_def split: sum.splits)
  from pagination_try_nonempty [OF body assms(2)] obtain json_data kvs where
    e: "extracted = Some json_data" and j: "truthy json_data"
    and sr: "extract_search_results json_data = Some (JDict kvs)"
    by blast
  note facts = pagination_try_dict [OF sr j body [unfolded e]]
  have "\<exists>pages. map_of info ''total_pages'' = Some (JInt pages)
                   \<and> pages = (n + 19) div 20
                   \<and> pages = \<lceil>rat_of_int n / 20\<rceil>
                   \<and> (n = 0 \<longrightarrow> pages = 0)
                   \<and> 20 * (pages - 1) < n \<and> n \<le> 20 * pages"
    if "int_value (first_truthy (map (\<lambda>key. dget kvs key JNull) count_keys) (JInt 0)) = Some n"
    for n
  proof -
    have "map_of info ''total_pages'' = Some (JInt ((n + 19) div 20))"
      using facts(2) [OF that] .
    moreover have "(n + 19) div 20 = \<lceil>rat_of_int n / 20\<rceil>"
      by (simp add: ceiling_div_20)
    moreover have "20 * ((n + 19) div 20 - 1) < n \<and> n \<le> 20 * ((n + 19) div 20)"
      by presburger
    moreover have "n = 0 \<longrightarrow> (n + 19) div 20 = 0"
      by simp
    ultimately show ?thesis by blast
  qed
  with e sr facts(1) facts(3) show ?thesis
    by blast
qed

theorem total_pages_ceiling_witness:
  "get_pagination_info (count_page (JInt 41))
     = [(''current_page'', JInt 1), (''total_pages'', JInt 3), (''total_results'', JInt 41)]
   \<and> (3 :: int) = \<lceil>rat_of_int 41 / 20\<rceil>"
proof -
  have v: "get_pagination_info (count_page (JInt 41))
     = [(''current_page'', JInt 1), (''total_pages'', JInt 3), (''total_results'', JInt 41)]"
    by (simp add: get_pagination_info_def pagination_try_def count_page_def
        page_of_search_results_def extract_search_results_def total_results_of_def
        total_pages_of_def pagination_of_def)
  from total_pages_ceiling [OF v]
  have "\<exists>pages. JInt 3 = JInt pages \<and> pages = \<lceil>rat_of_int 41 / 20\<rceil>"
    by (auto simp: count_page_def page_of_search_results_def extract_search_results_def
        first_truthy_def count_keys_def dget_def)
  with v show ?thesis by simp
qed

text \<open>
  With \<^verbatim>\<open>"totalResultCount": 0.5\<close> the method returns \<^verbatim>\<open>total_pages = 19.5 // 20 = 0.0\<close>,
  while the ceiling of 0.5 / 20 is 1 (all three floats are exact in binary).
\<close>

theorem total_pages_float_count:
  "get_pagination_info (count_page (JFloat (1 / 2)))
     = [(''current_page'', JInt 1), (''total_pages'', JFloat 0),
        (''total_results'', JFloat (1 / 2))]
   \<and> \<lceil>(1 / 2 :: rat) / 20\<rceil> = 1
   \<and> \<not> (1 / 2 :: rat) \<le> 20 * 0"
  by (simp add: get_pagination_info_def pagination_try_def count_page_def
        page_of_search_results_def extract_search_results_def total_results_of_def
        total_pages_of_def pagination_of_def floor_eq_iff ceiling_eq_iff)

section \<open>Properties of the fetch loop\<close>

lemma fetch_page_calls:
  "fetch_page w k target = (r, calls) \<Longrightarrow> calls = [\<lparr>call_url = target, call_result = r\<rparr>]"
  by (auto simp: fetch_page_def Let_def)

lemma fetch_page_with_url_state_calls:
  assumes "fetch_page_with_url_state w k base_url n = (r, calls)"
  shows "(calls = [] \<and> (\<exists>e. r = Inl e)) \<or> (\<exists>target. calls = [\<lparr>call_url = target, call_result = r\<rparr>])"
  using assms
  by (auto simp: fetch_page_with_url_state_def split: sum.splits option.splits
      dest: fetch_page_calls)

lemma iteration_fetch:
  assumes "iteration w base_url n k = (v, calls)"
  shows "\<exists>r. v = judge w base_url n r
           \<and> (calls = [] \<and> (\<exists>e. r = Inl e) \<or> (\<exists>target. calls = [\<lparr>call_url = target, call_result = r\<rparr>]))"
proof (cases "n = 1")
  case True
  obtain r cs where f: "fetch_page w k base_url = (r, cs)"
    by (cases "fetch_page w k base_url")
  with assms True have "calls = cs" "v = judge w base_url n r"
    by (simp_all add: iteration_def)
  with fetch_page_calls [OF f] show ?thesis
    by blast
next
  case False
  obtain r cs where f: "fetch_page_with_url_state w k base_url n = (r, cs)"
    by (cases "fetch_page_with_url_state w k base_url n")
  with assms False have "calls = cs" "v = judge w base_url n r"
    by (simp_all add: iteration_def)
  with fetch_page_with_url_state_calls [OF f] show ?thesis
    by blast
qed

lemma judge_Inl: "judge w base_url n (Inl e) = Raised e"
  by (simp add: judge_def)

lemma iteration_calls:
  assumes "iteration w base_url n k = (v, calls)"
  shows "length calls \<le> 1" and "(\<forall>e. v \<noteq> Raised e) \<Longrightarrow> length calls = 1"
  using iteration_fetch [OF assms] by (auto simp: judge_Inl)

lemma extract_html_truthy:
  assumes "extract_html d = Inr h" "truthy h"
  shows "is_dict d \<and> h = page_html d"
  using assms
  by (cases d)
     (auto simp: extract_html_def page_html_def html_keys_def first_truthy_def dget_def
       split: if_splits)

lemma judge_page:
  assumes "judge w base_url n r = Last p \<or> judge w base_url n r = More p"
  shows "page_number p = n \<and> url p = base_url"
  using assms
  by (auto simp: judge_def split: sum.splits option.splits if_splits)

lemma judge_More:
  assumes "judge w base_url n r = More p"
  shows "\<exists>d. r = Inr (Some d) \<and> truthy d \<and> is_dict d \<and> truthy (page_html d)
           \<and> enabled_next (find_next w (page_html d))"
proof -
  from assms obtain d h aria where
    r: "r = Inr (Some d)" and d: "truthy d"
    and h: "extract_html d = Inr h" "truthy h"
    and n: "find_next w h = Inr (Some aria)" "aria \<noteq> Some ''true''"
    by (auto simp: judge_def split: sum.splits option.splits if_splits)
  from extract_html_truthy [OF h] have "is_dict d" "h = page_html d"
    by simp_all
  with r d h n show ?thesis
    by auto
qed

lemma judge_data:
  assumes "judge w base_url n r = Last p \<or> judge w base_url n r = More p"
  shows "r = Inr (Some (data p))"
  using assms
  by (auto simp: judge_def split: sum.splits option.splits if_splits)

lemma iteration_page:
  assumes "iteration w base_url n k = (v, calls)" "v = Last p \<or> v = More p"
  shows "page_number p = n \<and> url p = base_url"
    and "fetched_in p \<lparr>at_page = n, at_calls = calls\<rparr>"
proof -
  from iteration_fetch [OF assms(1)] obtain r where
    v: "v = judge w base_url n r"
    and calls: "calls = [] \<and> (\<exists>e. r = Inl e)
                \<or> (\<exists>target. calls = [\<lparr>call_url = target, call_result = r\<rparr>])"
    by blast
  from v assms(2) have j: "judge w base_url n r = Last p \<or> judge w base_url n r = More p"
    by auto
  from judge_page [OF j] show n: "page_number p = n \<and> url p = base_url" .
  from judge_data [OF j] have r: "r = Inr (Some (data p))" .
  with calls obtain target where "calls = [\<lparr>call_url = target, call_result = r\<rparr>]"
    by auto
  with r n show "fetched_in p \<lparr>at_page = n, at_calls = calls\<rparr>"
    by (simp add: fetched_in_def)
qed

lemma iteration_More:
  assumes "iteration w base_url n k = (More p, calls)"
  shows "next_page_allowed w \<lparr>at_page = n, at_calls = calls\<rparr>"
proof -
  from iteration_fetch [OF assms] obtain r where
    v: "judge w base_url n r = More p"
    and calls: "calls = [] \<and> (\<exists>e. r = Inl e) \<or> (\<exists>target. calls = [\<lparr>call_url = target, call_result = r\<rparr>])"
    by auto
  from judge_More [OF v] obtain d where
    d: "r = Inr (Some d)" "truthy d" "is_dict d" "truthy (page_html d)"
       "enabled_next (find_next w (page_html d))"
    by blast
  with calls obtain target where "calls = [\<lparr>call_url = target, call_result = r\<rparr>]"
    by auto
  with d show ?thesis
    by (simp add: next_page_allowed_def)
qed

lemma take_upto:
  assumes "k \<le> nat m"
  shows "take k [1..m] = [1..int k]"
proof (rule nth_equalityI)
  show "length (take k [1..m]) = length [1..int k]"
    using assms by simp
next
  fix i
  assume "i < length (take k [1..m])"
  then have "i < k" "i < nat m"
    using assms by simp_all
  then show "take k [1..m] ! i = [1..int k] ! i"
    by simp
qed

lemma fetch_loop_trace:
  assumes "fetch_loop w base_url ns all_pages trace = (res, trace')"
  shows "\<exists>new. trace' = trace @ new \<and> length new \<le> length ns
           \<and> map at_page new = take (length new) ns
           \<and> (\<forall>a\<in>set new. length (at_calls a) \<le> 1)
           \<and> (\<forall>a\<in>set (butlast new). next_page_allowed w a)
           \<and> (\<forall>pages. res = Inr pages \<longrightarrow>
                 (\<forall>a\<in>set new. length (at_calls a) = 1)
               \<and> (\<exists>added. pages = all_pages @ added \<and> length added \<le> length new
                     \<and> length new \<le> Suc (length added)
                     \<and> list_all2 fetched_in added (take (length added) new)
                     \<and> map page_number added = take (length added) ns
                     \<and> (\<forall>p\<in>set added. url p = base_url)))"
  using assms
proof (induction ns arbitrary: all_pages trace)
  case Nil
  then show ?case by auto
next
  case (Cons n ns)
  obtain v calls where it: "iteration w base_url n (calls_made trace) = (v, calls)"
    by (cases "iteration w base_url n (calls_made trace)")
  let ?a = "\<lparr>at_page = n, at_calls = calls\<rparr>"
  note one = iteration_calls [OF it]
  show ?case
  proof (cases v)
    case (Raised e)
    with Cons.prems it have "res = Inl e" "trace' = trace @ [?a]"
      by simp_all
    with one(1) show ?thesis
      by (intro exI [of _ "[?a]"]) simp
  next
    case Failed
    with Cons.prems it have "res = Inr all_pages" "trace' = trace @ [?a]"
      by simp_all
    moreover have "length calls = 1"
      using one(2) Failed by simp
    ultimately show ?thesis
      by (intro exI [of _ "[?a]"]) simp
  next
    case (Last p)
    with Cons.prems it have "res = Inr (all_pages @ [p])" "trace' = trace @ [?a]"
      by simp_all
    moreover have "length calls = 1"
      using one(2) Last by simp
    moreover have "page_number p = n \<and> url p = base_url" "fetched_in p ?a"
      using iteration_page [OF it] Last by simp_all
    ultimately show ?thesis
      by (intro exI [of _ "[?a]"]) (auto intro: exI [of _ "[p]"])
  next
    case (More p)
    with Cons.prems it
    have "fetch_loop w base_url ns (all_pages @ [p]) (trace @ [?a]) = (res, trace')"
      by simp
    from Cons.IH [OF this] obtain new where
      new: "trace' = (trace @ [?a]) @ new" "length new \<le> length ns"
        "map at_page new = take (length new) ns"
        "\<forall>a\<in>set new. length (at_calls a) \<le> 1"
        "\<forall>a\<in>set (butlast new). next_page_allowed w a"
      and ret: "\<forall>pages. res = Inr pages \<longrightarrow>
                 (\<forall>a\<in>set new. length (at_calls a) = 1)
               \<and> (\<exists>added. pages = (all_pages @ [p]) @ added \<and> length added \<le> length new
                     \<and> length new \<le> Suc (length added)
                     \<and> list_all2 fetched_in added (take (length added) new)
                     \<and> map page_number added = take (length added) ns
                     \<and> (\<forall>p\<in>set added. url p = base_url))"
      by blast
    have c1: "length calls = 1"
      using one(2) More by simp
    have allowed: "next_page_allowed w ?a"
      using iteration_More it More by blast
    have p: "page_number p = n \<and> url p = base_url" "fetched_in p ?a"
      using iteration_page [OF it] More by simp_all
    have "\<forall>a\<in>set (butlast (?a # new)). next_page_allowed w a"
      using new(5) allowed by (auto split: if_splits)
    moreover have "\<forall>pages. res = Inr pages \<longrightarrow>
                 (\<forall>a\<in>set (?a # new). length (at_calls a) = 1)
               \<and> (\<exists>added. pages = all_pages @ added \<and> length added \<le> length (?a # new)
                     \<and> length (?a # new) \<le> Suc (length added)
                     \<and> list_all2 fetched_in added (take (length added) (?a # new))
                     \<and> map page_number added = take (length added) (n # ns)
                     \<and> (\<forall>p\<in>set added. url p = base_url))"
    proof (intro allI impI)
      fix pages
      assume "res = Inr pages"
      with ret obtain added where
        a: "\<forall>a\<in>set new. length (at_calls a) = 1" "pages = (all_pages @ [p]) @ added"
           "length added \<le> length new" "length new \<le> Suc (length added)"
           "list_all2 fetched_in added (take (length added) new)"
           "map page_number added = take (length added) ns"
           "\<forall>p\<in>set added. url p = base_url"
        by blast
      with c1 p show "(\<forall>a\<in>set (?a # new). length (at_calls a) = 1)
               \<and> (\<exists>added. pages = all_pages @ added \<and> length added \<le> length (?a # new)
                     \<and> length (?a # new) \<le> Suc (length added)
                     \<and> list_all2 fetched_in added (take (length added) (?a # new))
                     \<and> map page_number added = take (length added) (n # ns)
                     \<and> (\<forall>p\<in>set added. url p = base_url))"
        by (intro conjI exI [of _ "p # added"]) simp_all
    qed
    ultimately show ?thesis
      using new c1 by (intro exI [of _ "?a # new"]) simp
  qed
qed

lemma fetch_all_pages_trace:
  assumes "fetch_all_pages w base_url max_pages = (res, trace)"
  shows "map at_page trace = [1..int (length trace)]"
    and "length trace \<le> nat max_pages"
    and "\<forall>a\<in>set trace. length (at_calls a) \<le> 1"
    and "\<forall>a\<in>set (butlast trace). next_page_allowed w a"
    and "\<And>pages. res = Inr pages \<Longrightarrow> \<forall>a\<in>set trace. length (at_calls a) = 1"
    and "\<And>pages. res = Inr pages \<Longrightarrow>
           length pages \<le> length trace \<and> map page_number pages = [1..int (length pages)]
           \<and> (\<forall>p\<in>set pages. url p = base_url)"
    and "\<And>pages. res = Inr pages \<Longrightarrow>
           length trace \<le> Suc (length pages)
           \<and> list_all2 fetched_in pages (take (length pages) trace)"
proof -
  from fetch_loop_trace [OF assms [unfolded fetch_all_pages_def]] obtain new where
    new: "trace = new" "length new \<le> length [1..max_pages]"
      "map at_page new = take (length new) [1..max_pages]"
      "\<forall>a\<in>set new. length (at_calls a) \<le> 1"
      "\<forall>a\<in>set (butlast new). next_page_allowed w a"
    and ret: "\<forall>pages. res = Inr pages \<longrightarrow>
                 (\<forall>a\<in>set new. length (at_calls a) = 1)
               \<and> (\<exists>added. pages = [] @ added \<and> length added \<le> length new
                     \<and> length new \<le> Suc (length added)
                     \<and> list_all2 fetched_in added (take (length added) new)
                     \<and> map page_number added = take (length added) [1..max_pages]
                     \<and> (\<forall>p\<in>set added. url p = base_url))"
    by auto
  from new(1,2) show len: "length trace \<le> nat max_pages"
    by simp
  from new(1,3) len show "map at_page trace = [1..int (length trace)]"
    by (simp add: take_upto)
  from new(1,4) show "\<forall>a\<in>set trace. length (at_calls a) \<le> 1"
    by simp
  from new(1,5) show "\<forall>a\<in>set (butlast trace). next_page_allowed w a"
    by simp
  show "\<forall>a\<in>set trace. length (at_calls a) = 1" if "res = Inr pages" for pages
    using ret that new(1) by simp
  show "length pages \<le> length trace \<and> map page_number pages = [1..int (length pages)]
           \<and> (\<forall>p\<in>set pages. url p = base_url)" if "res = Inr pages" for pages
  proof -
    from ret that have "length pages \<le> length new"
      "map page_number pages = take (length pages) [1..max_pages]"
      "\<forall>p\<in>set pages. url p = base_url"
      by auto
    with new(1) len show ?thesis
      by (simp add: take_upto)
  qed
  show "length trace \<le> Suc (length pages)
           \<and> list_all2 fetched_in pages (take (length pages) trace)"
    if "res = Inr pages" for pages
    using ret that new(1) by auto
qed

section \<open>Properties of fetch_page and fetch_all_pages\<close>

lemma next_page_allowed_one_call: "next_page_allowed w a \<Longrightarrow> length (at_calls a) = 1"
  by (auto simp: next_page_allowed_def split: list.splits)

lemma calls_made_le:
  "\<forall>a\<in>set trace. length (at_calls a) \<le> 1 \<Longrightarrow> calls_made trace \<le> length trace"
  unfolding calls_made_def by (induction trace) auto

lemma two_pages_run:
  "fetch_all_pages (example_world two_pages) plain_url 5 =
     (Inr [\<lparr>page_number = 1, url = plain_url,
             data = JDict [(''status'', JStr ''success''), (''html_content'', next_link_html)]\<rparr>,
           \<lparr>page_number = 2, url = plain_url,
             data = JDict [(''status'', JStr ''success''), (''html_content'', disabled_link_html)]\<rparr>],
      [\<lparr>at_page = 1, at_calls = [\<lparr>call_url = plain_url, call_result =
          Inr (Some (JDict [(''status'', JStr ''success''), (''html_content'', next_link_html)]))\<rparr>]\<rparr>,
       \<lparr>at_page = 2, at_calls = [\<lparr>call_url = plain_url, call_result =
          Inr (Some (JDict [(''status'', JStr ''success''), (''html_content'', disabled_link_html)]))\<rparr>]\<rparr>])"
  by (simp add: upto_rec1 Let_def fetch_all_pages_def iteration_def judge_def fetch_page_def
      fetch_page_with_url_state_def example_world_def two_pages_def calls_made_def
      extract_html_def find_next_example_def plain_url_def broken_state_url_def
      next_link_html_def disabled_link_html_def)

text \<open>
  Claim C1, as amended. \<open>fetch_all_pages\<close> is a total function: whatever the base URL,
  the network and the library functions do, a run ends, by returning a list or by an
  exception that leaves the method. For \<open>max_pages \<ge> 0\<close> its rounds are for the page
  numbers 1, 2, ..., k in this order with k at most \<open>max_pages\<close>; a round makes at most
  one call of \<^verbatim>\<open>fetch_page\<close>, and exactly one in every round but the last, so that no
  page is asked for twice and at most \<open>max_pages\<close> calls are made; when the method
  returns, the last round made its one call as well and the list has at most
  \<open>max_pages\<close> records.
\<close>

theorem fetch_all_pages_bounded:
  assumes "0 \<le> max_pages" and "fetch_all_pages w base_url max_pages = (res, trace)"
  shows "map at_page trace = [1..int (length trace)]
       \<and> int (length trace) \<le> max_pages
       \<and> (\<forall>a\<in>set trace. length (at_calls a) \<le> 1)
       \<and> (\<forall>a\<in>set (butlast trace). length (at_calls a) = 1)
       \<and> int (calls_made trace) \<le> max_pages
       \<and> (\<forall>pages. res = Inr pages \<longrightarrow>
             int (length pages) \<le> max_pages \<and> (\<forall>a\<in>set trace. length (at_calls a) = 1))"
proof -
  note t = fetch_all_pages_trace [OF assms(2)]
  have len: "int (length trace) \<le> max_pages"
    using t(2) assms(1) by linarith
  have "calls_made trace \<le> length trace"
    using t(3) by (rule calls_made_le)
  then have calls: "int (calls_made trace) \<le> max_pages"
    using len by linarith
  have inner: "\<forall>a\<in>set (butlast trace). length (at_calls a) = 1"
    using t(4) next_page_allowed_one_call by blast
  have "int (length pages) \<le> max_pages \<and> (\<forall>a\<in>set trace. length (at_calls a) = 1)"
    if "res = Inr pages" for pages
    using t(5) [OF that] t(6) [OF that] len by auto
  with t(1) t(3) len calls inner show ?thesis
    by blast
qed

theorem fetch_all_pages_bounded_witness:
  "(0 :: int) \<le> 5
   \<and> map at_page (snd (fetch_all_pages (example_world two_pages) plain_url 5)) = [1, 2]
   \<and> calls_made (snd (fetch_all_pages (example_world two_pages) plain_url 5)) = 2
   \<and> map page_number
        (case fst (fetch_all_pages (example_world two_pages) plain_url 5) of
           Inr pages \<Rightarrow> pages | Inl e \<Rightarrow> []) = [1, 2]"
  using fetch_all_pages_bounded [of 5 "example_world two_pages" plain_url
      "fst (fetch_all_pages (example_world two_pages) plain_url 5)"
      "snd (fetch_all_pages (example_world two_pages) plain_url 5)"]
  by (simp add: two_pages_run calls_made_def)

text \<open>
  A base URL whose \<^verbatim>\<open>searchQueryState\<close> is not JSON: page 1 is fetched and links to a
  next page; in the round for page 2 \<^verbatim>\<open>json.loads\<close> raises before any call of
  \<^verbatim>\<open>fetch_page\<close>, and the exception leaves \<^verbatim>\<open>fetch_all_pages\<close>, which returns no list.
\<close>

theorem fetch_all_pages_broken_state:
  "fst (fetch_all_pages (example_world endless_pages) broken_state_url 3) = Inl ValueError
   \<and> map at_page (snd (fetch_all_pages (example_world endless_pages) broken_state_url 3)) = [1, 2]
   \<and> map (length \<circ> at_calls)
        (snd (fetch_all_pages (example_world endless_pages) broken_state_url 3)) = [1, 0]"
  by (simp add: upto_rec1 Let_def fetch_all_pages_def iteration_def judge_def fetch_page_def
      fetch_page_with_url_state_def example_world_def endless_pages_def calls_made_def
      extract_html_def find_next_example_def plain_url_def broken_state_url_def
      next_link_html_def disabled_link_html_def)

text \<open>
  Claim C5 at an answer with \<^verbatim>\<open>"render_flow": null\<close>: the POST succeeded and the body
  is a JSON object, yet \<^verbatim>\<open>data['render_flow'].get('success')\<close> raises and
  \<^verbatim>\<open>fetch_page\<close> does not return the decoded dict.
\<close>

theorem fetch_page_null_render_flow:
  "fst (fetch_page (example_world null_render_flow) 0 plain_url) = Inl AttributeError"
  by (simp add: fetch_page_def Let_def example_world_def null_render_flow_def plain_url_def
      next_link_html_def)

text \<open>
  What \<^verbatim>\<open>fetch_page\<close> returns when its messages do not raise: the URL and the status
  can be printed, and \<^verbatim>\<open>render_flow\<close> is missing or a dict whose \<^verbatim>\<open>success\<close> can be
  printed.
\<close>

lemma fetch_page_outcomes:
  assumes "\<not> has_surrogate (first_points 100 target)"
  shows "post w k target = RequestException \<Longrightarrow> fst (fetch_page w k target) = Inr None"
    and "post w k target = HTTPError \<Longrightarrow> fst (fetch_page w k target) = Inr None"
    and "post w k target = Body (JDict kvs) \<Longrightarrow> \<not> print_raises (dget kvs ''status'' JNull)
           \<Longrightarrow> is_dict (dget kvs ''render_flow'' (JDict []))
           \<Longrightarrow> \<not> print_raises
                  (dget (dict_items (dget kvs ''render_flow'' (JDict []))) ''success'' JNull)
           \<Longrightarrow> fst (fetch_page w k target) = Inr (Some (JDict kvs))"
  using assms
  by (auto simp: fetch_page_def Let_def dget_def py_get_if split: option.splits)

text \<open>
  Claim C7. In every run of \<^verbatim>\<open>fetch_all_pages\<close>, when there is a round for page n + 1
  (n at least 1), and so whenever page n + 1 is fetched, then n + 1 is at most
  \<open>max_pages\<close> and the round for page n made one call of \<^verbatim>\<open>fetch_page\<close> that returned
  a truthy dict, the first non-empty value under the keys html_content, rendered_html,
  browser_html, html of that dict exists, and the \<^verbatim>\<open>rel="next"\<close> anchor found in it has
  an \<^verbatim>\<open>aria-disabled\<close> attribute other than \<^verbatim>\<open>true\<close> (or none).
\<close>

theorem next_page_needs_success:
  assumes "fetch_all_pages w base_url max_pages = (res, trace)"
    and "a \<in> set trace" and "at_page a = n + 1" and "1 \<le> n"
  shows "n + 1 \<le> max_pages \<and> (\<exists>b\<in>set trace. at_page b = n \<and> next_page_allowed w b)"
proof -
  note t = fetch_all_pages_trace [OF assms(1)]
  from assms(2) obtain i where i: "i < length trace" "trace ! i = a"
    by (auto simp: in_set_conv_nth)
  have pages: "at_page (trace ! j) = 1 + int j" if "j < length trace" for j
  proof -
    have "at_page (trace ! j) = map at_page trace ! j"
      using that by simp
    also have "\<dots> = [1..int (length trace)] ! j"
      by (simp add: t(1))
    also have "\<dots> = 1 + int j"
      using that by simp
    finally show ?thesis .
  qed
  from pages [OF i(1)] i(2) assms(3) have n: "n = int i"
    by simp
  with assms(4) obtain j where j: "i = Suc j"
    by (cases i) simp_all
  have "n + 1 \<le> max_pages"
    using n i(1) t(2) by linarith
  moreover have "j < length (butlast trace)"
    using i(1) j by simp
  then have "butlast trace ! j \<in> set (butlast trace)"
    by (rule nth_mem)
  then have "trace ! j \<in> set (butlast trace)"
    using \<open>j < length (butlast trace)\<close> by (simp add: nth_butlast)
  then have "next_page_allowed w (trace ! j)" "trace ! j \<in> set trace"
    using t(4) by (auto dest: in_set_butlastD)
  moreover have "at_page (trace ! j) = n"
    using pages [of j] i(1) j n by simp
  ultimately show ?thesis
    by blast
qed

theorem next_page_needs_success_witness:
  "snd (fetch_all_pages (example_world two_pages) plain_url 5) ! 1
     \<in> set (snd (fetch_all_pages (example_world two_pages) plain_url 5))
   \<and> at_page (snd (fetch_all_pages (example_world two_pages) plain_url 5) ! 1) = 1 + 1
   \<and> (1 :: int) + 1 \<le> 5
   \<and> at_page (snd (fetch_all_pages (example_world two_pages) plain_url 5) ! 0) = 1
   \<and> next_page_allowed (example_world two_pages)
        (snd (fetch_all_pages (example_world two_pages) plain_url 5) ! 0)"
proof -
  let ?w = "example_world two_pages"
  let ?d = "JDict [(''status'', JStr ''success''), (''html_content'', next_link_html)]"
  have html: "page_html ?d = next_link_html" "truthy next_link_html"
    by (simp_all add: page_html_def html_keys_def first_truthy_def dget_def next_link_html_def)
  have "find_next ?w next_link_html = Inr (Some None)"
    by (simp add: example_world_def find_next_example_def)
  with html have allowed:
    "next_page_allowed ?w \<lparr>at_page = 1, at_calls = [\<lparr>call_url = plain_url, call_result = Inr (Some ?d)\<rparr>]\<rparr>"
    by (simp add: next_page_allowed_def)
  show ?thesis
    using next_page_needs_success [of ?w plain_url 5
        "fst (fetch_all_pages ?w plain_url 5)" "snd (fetch_all_pages ?w plain_url 5)"
        "snd (fetch_all_pages ?w plain_url 5) ! 1" 1]
      allowed
    by (simp add: two_pages_run)
qed

text \<open>
  Claim C10. Whenever \<^verbatim>\<open>fetch_all_pages\<close> returns, the page numbers of the returned
  records are 1, 2, ..., len(result) in this order, without a gap or a duplicate; they
  are a prefix of the page numbers attempted, which are those of the result and at most
  one more; every record holds what the one \<^verbatim>\<open>fetch_page\<close> call of the round for its
  page number returned; and the url of every record is the base URL.
\<close>

theorem returned_pages_numbered:
  assumes "fetch_all_pages w base_url max_pages = (Inr pages, trace)"
  shows "map page_number pages = [1..int (length pages)]
       \<and> distinct (map page_number pages)
       \<and> length pages \<le> length trace \<and> length trace \<le> Suc (length pages)
       \<and> map at_page trace = [1..int (length trace)]
       \<and> map page_number pages = take (length pages) (map at_page trace)
       \<and> list_all2 fetched_in pages (take (length pages) trace)
       \<and> (\<forall>p\<in>set pages. url p = base_url)"
proof -
  note t = fetch_all_pages_trace [OF assms]
  have numbered: "map page_number pages = [1..int (length pages)]"
    and len: "length pages \<le> length trace"
    and urls: "\<forall>p\<in>set pages. url p = base_url"
    using t(6) by simp_all
  have "take (length pages) (map at_page trace) = [1..int (length pages)]"
    using len by (simp add: t(1) take_upto)
  moreover have "distinct (map page_number pages)"
    by (simp add: numbered)
  ultimately show ?thesis
    using numbered len urls t(1) t(7) by simp
qed

theorem returned_pages_numbered_witness:
  "map page_number
     (case fst (fetch_all_pages (example_world two_pages) plain_url 5) of
        Inr pages \<Rightarrow> pages | Inl e \<Rightarrow> []) = [1, 2]
   \<and> map at_page (snd (fetch_all_pages (example_world two_pages) plain_url 5)) = [1, 2]
   \<and> map url
     (case fst (fetch_all_pages (example_world two_pages) plain_url 5) of
        Inr pages \<Rightarrow> pages | Inl e \<Rightarrow> []) = [plain_url, plain_url]"
  using returned_pages_numbered [of "example_world two_pages" plain_url 5 _ _, OF two_pages_run]
  by (simp add: two_pages_run)

end
